theory Spec2Isabelle
  imports Complex_Main "HOL-Library.Word"
begin

text \<open>
  The debug editor contribution (\<open>DebugEditorContribution\<close> in
  \<open>src/vs/workbench/contrib/debug/browser/debugEditorContribution.ts\<close>): the state of one
  instance, its methods as functions on that state, its debounce timers as values of the
  state, and the properties of the hover, the exception widget and the inline value
  decorations.
\<close>

section \<open>JavaScript values used by the debug editor contribution\<close>

text \<open>
  A JavaScript string is a sequence of UTF-16 code units; \<open>.length\<close> counts code units.
  \<open>js\<close> writes a literal of the source.
\<close>

type_synonym js_string = "16 word list"

definition js :: "string \<Rightarrow> js_string" where
  "js s = map of_char s"

text \<open>\<open>String.prototype.substr(start, length)\<close> and \<open>substring(start, end)\<close> on
  non-negative integer arguments: \<open>substring\<close> clamps both indices to the length and
  swaps them when the first is larger.\<close>

definition substr :: "js_string \<Rightarrow> nat \<Rightarrow> nat \<Rightarrow> js_string" where
  "substr s start len = take len (drop start s)"

definition substring :: "js_string \<Rightarrow> nat \<Rightarrow> nat \<Rightarrow> js_string" where
  "substring s a b =
     (let a' = min a (length s); b' = min b (length s);
          lo = min a' b'; hi = max a' b'
      in take (hi - lo) (drop lo s))"

text \<open>\<open>String.prototype.indexOf(t)\<close>: the first index at which \<open>t\<close> occurs, or -1.\<close>

definition indexOf :: "js_string \<Rightarrow> js_string \<Rightarrow> int" where
  "indexOf s t =
     (case List.find (\<lambda>i. take (length t) (drop i s) = t) [0..<Suc (length s)] of
        None \<Rightarrow> - 1
      | Some i \<Rightarrow> int i)"

text \<open>\<open>Array.prototype.join(sep)\<close> on an array of strings.\<close>

fun join :: "js_string \<Rightarrow> js_string list \<Rightarrow> js_string" where
  "join sep [] = []"
| "join sep [x] = x"
| "join sep (x # y # ys) = x @ sep @ join sep (y # ys)"

text \<open>
  A JavaScript \<open>Map\<close> keeps its entries in insertion order and \<open>forEach\<close> visits them in
  that order: an association list with one entry per key. \<open>set\<close> on a key that is
  present replaces the value in place, otherwise it appends the entry.
\<close>

type_synonym ('k, 'v) js_map = "('k \<times> 'v) list"

fun jsmap_set :: "('k, 'v) js_map \<Rightarrow> 'k \<Rightarrow> 'v \<Rightarrow> ('k, 'v) js_map" where
  "jsmap_set [] k v = [(k, v)]"
| "jsmap_set ((k', v') # m) k v =
     (if k' = k then (k, v) # m else (k', v') # jsmap_set m k v)"

definition jsmap_get :: "('k, 'v) js_map \<Rightarrow> 'k \<Rightarrow> 'v option" where
  "jsmap_get m k = map_of m k"

definition jsmap_has :: "('k, 'v) js_map \<Rightarrow> 'k \<Rightarrow> bool" where
  "jsmap_has m k = (map_of m k \<noteq> None)"

definition jsmap_size :: "('k, 'v) js_map \<Rightarrow> nat" where
  "jsmap_size m = length m"


section \<open>Editor and debugger data\<close>

record Position =
  lineNumber :: nat
  column :: nat

record Range =
  startLineNumber :: nat
  startColumn :: nat
  endLineNumber :: nat
  endColumn :: nat

datatype StandardTokenType = Other | Comment | String | RegEx

text \<open>One token of a line as \<open>LineTokens\<close> reports it: \<open>getStartOffset\<close>,
  \<open>getEndOffset\<close> and \<open>getStandardTokenType\<close> at one index.\<close>

record token =
  startOffset :: nat
  endOffset :: nat
  standardTokenType :: StandardTokenType

record line =
  content :: js_string
  tokens :: "token list"

text \<open>The text model of the editor: \<open>uri.toString()\<close> and the lines, line 1 first.\<close>

record text_model =
  model_uri :: js_string
  lines :: "line list"

record expression =
  expr_name :: js_string
  expr_value :: js_string

record after_options =
  contentText :: js_string
  backgroundColor :: js_string
  margin :: js_string

record render_options =
  after :: after_options
  dark_after_color :: js_string
  light_after_color :: js_string

record decoration =
  decoration_range :: Range
  renderOptions :: render_options

record source =
  source_uri :: js_string
  available :: bool
  presentationHint :: "js_string option"

record exception_info =
  exception_id :: "js_string option"
  description :: "js_string option"

type_synonym session = js_string

text \<open>Stack frames are objects compared by identity (\<open>exceptionSf !== focusedSf\<close>): a
  frame is referred to by a reference, and the state maps references to frames.\<close>

type_synonym frame_ref = nat

text \<open>A thread as a frame sees it: the result of \<open>getCallStack()\<close> and the value the
  promise \<open>exceptionInfo\<close> resolves to.\<close>

record thread =
  callStack :: "frame_ref list"
  exceptionInfo :: "exception_info option"

record scope =
  scope_children :: "expression list"
  scope_range :: "Range option"

text \<open>\<open>mostSpecificScopes\<close> is what \<open>getMostSpecificScopes(range)\<close> resolves to.\<close>

record stack_frame =
  source :: source
  frame_range :: Range
  thread :: thread
  mostSpecificScopes :: "scope list"

datatype State = Inactive | Initializing | Stopped | Running

record exception_widget =
  widget_exceptionInfo :: exception_info
  widget_debugSession :: "session option"

text \<open>The floating "Add Configuration..." widget, the value of \<open>editor.hover\<close> that the
  configuration service gives for the editor's model, the hover options that
  \<open>editor.updateOptions\<close> is called with, and the bounding rectangle of the hover
  widget's DOM node.\<close>

datatype floating_click_widget = AddConfigurationWidget

record editor_hover_options =
  hover_enabled :: bool
  hover_delay :: nat
  hover_sticky :: bool

record hover_update =
  update_enabled :: bool
  update_delay :: "nat option"
  update_sticky :: "bool option"

record client_rect =
  rect_left :: real
  rect_right :: real
  rect_top :: real
  rect_bottom :: real

text \<open>The callbacks that \<open>addLaunchConfiguration\<close> passes to the JSON visitor.\<close>

datatype json_event =
    ObjectProperty js_string nat nat
  | ArrayBegin nat nat
  | ArrayEnd

datatype CancellationToken = CancellationToken_None | CancellationToken_Cancelled

text \<open>The calls with an effect that the class makes on objects of the host.\<close>

datatype host_call =
    HoverWidget_showAt Range bool
  | HoverWidget_hide
  | GetHover text_model Position CancellationToken
  | ExceptionWidget_show Position
  | ExceptionWidget_dispose
  | Editor_revealLine nat
  | Editor_removeDecorations
  | Editor_setDecorations "decoration list"
  | Editor_updateOptions hover_update
  | Editor_focus
  | Editor_setPosition Position
  | LineBreakInsert_runEditorCommand
  | ExecuteCommand js_string
  | RegisterDecorationType
  | Telemetry_publicLog js_string
  | HoverWidget_dispose
  | FloatingClickWidget_render
  | FloatingClickWidget_dispose

text \<open>
  Parts of the host framework that the class uses and that are not part of the
  sources at hand are parameters of the model: the platform flag, constants, the default
  word regular expression (\<open>exec\<close> with \<open>lastIndex\<close> reset to 0, giving the matched text
  \<open>wordMatch[0]\<close>), the methods of the host's \<open>Range\<close> class, the JSON visitor (the
  sequence of the three callbacks it makes on a text), and the methods \<open>getValue\<close>,
  \<open>getPositionAt\<close> and \<open>getLineLastNonWhitespaceColumn\<close> of the text model.
\<close>

record host =
  isMacintosh :: bool
  DebugHoverWidget_ID :: js_string
  MAX_SAFE_SMALL_INTEGER :: nat
  DEFAULT_WORD_REGEXP_exec :: "js_string \<Rightarrow> js_string option"
  Range_new :: "nat \<Rightarrow> nat \<Rightarrow> nat \<Rightarrow> nat \<Rightarrow> Range"
  setStartPosition :: "Range \<Rightarrow> nat \<Rightarrow> nat \<Rightarrow> Range"
  containsPosition :: "Range \<Rightarrow> Position \<Rightarrow> bool"
  equalsRange :: "Range \<Rightarrow> Range option \<Rightarrow> bool"
  EDITOR_CONTRIBUTION_ID :: js_string
  visit :: "js_string \<Rightarrow> json_event list"
  getValue :: "text_model \<Rightarrow> js_string"
  getPositionAt :: "text_model \<Rightarrow> nat \<Rightarrow> Position"
  getLineLastNonWhitespaceColumn :: "text_model \<Rightarrow> nat \<Rightarrow> nat"

definition HOVER_DELAY :: nat where
  "HOVER_DELAY = 300"

definition MAX_NUM_INLINE_VALUES :: nat where
  "MAX_NUM_INLINE_VALUES = 100"

definition MAX_INLINE_DECORATOR_LENGTH :: nat where
  "MAX_INLINE_DECORATOR_LENGTH = 150"

definition MAX_TOKENIZATION_LINE_LEN :: nat where
  "MAX_TOKENIZATION_LINE_LEN = 500"


section \<open>Schedulers and the state of the contribution\<close>

text \<open>
  Modelled from the spec: \<open>RunOnceScheduler\<close> (\<open>vs/base/common/async\<close>) is not part of the
  sources at hand. It is the debounce timer of the specification: \<open>schedule()\<close> cancels a
  pending timer and arms a new one with the scheduler's delay, \<open>cancel()\<close> cancels a
  pending timer, \<open>isScheduled()\<close> tells whether a timer is pending, and when the timer
  fires the scheduler is no longer scheduled and its runner runs once; disposing of a
  scheduler cancels its pending timer. The value is the delay of the pending timer, if
  there is one.
\<close>

type_synonym RunOnceScheduler = "nat option"

definition schedule :: "nat \<Rightarrow> RunOnceScheduler \<Rightarrow> RunOnceScheduler" where
  "schedule timeout t = Some timeout"

definition cancel :: "RunOnceScheduler \<Rightarrow> RunOnceScheduler" where
  "cancel t = None"

definition isScheduled :: "RunOnceScheduler \<Rightarrow> bool" where
  "isScheduled t = (t \<noteq> None)"

text \<open>
  The state of one \<open>DebugEditorContribution\<close>: what it reads from the editor, the debug
  service, the configuration service and the hover widget; its own fields; the pending
  timers of its five memoized schedulers; and the calls it has made on the host, oldest
  first. The hover widget is created with the contribution and is always there; what
  the contribution reads from it are fields of the state.
\<close>

record state =
  editor_model :: "text_model option"
  debugService_state :: State
  frames :: "frame_ref \<Rightarrow> stack_frame"
  focusedStackFrame :: "frame_ref option"
  focusedSession :: "session option"
  debug_enableAllHovers :: bool
  debug_inlineValues :: bool
  config_editor_hover :: editor_hover_options
  editor_readOnly :: bool
  hoverWidget_isVisible :: bool
  hoverWidget_isHovered :: bool
  hoverWidget_domNode :: "client_rect option"
  nonDebugHoverPosition :: "Position option"
  hoverRange :: "Range option"
  mouseDown :: bool
  wordToLineNumbersMap :: "(js_string, Position list) js_map option"
  exceptionWidget :: "exception_widget option"
  configurationWidget :: "floating_click_widget option"
  showHoverScheduler :: RunOnceScheduler
  hideHoverScheduler :: RunOnceScheduler
  provideNonDebugHoverScheduler :: RunOnceScheduler
  removeInlineValuesScheduler :: RunOnceScheduler
  updateInlineValuesScheduler :: RunOnceScheduler
  hostCalls :: "host_call list"


section \<open>Inline value decorations\<close>

subsection \<open>\<open>createInlineValueDecoration\<close>\<close>

definition createInlineValueDecoration :: "host \<Rightarrow> nat \<Rightarrow> js_string \<Rightarrow> decoration" where
  "createInlineValueDecoration h line_number content_text =
     (let content_text' =
            (if length content_text > MAX_INLINE_DECORATOR_LENGTH
             then substr content_text 0 MAX_INLINE_DECORATOR_LENGTH @ js ''...''
             else content_text)
      in \<lparr> decoration_range =
             \<lparr> startLineNumber = line_number,
               startColumn = MAX_SAFE_SMALL_INTEGER h,
               endLineNumber = line_number,
               endColumn = MAX_SAFE_SMALL_INTEGER h \<rparr>,
           renderOptions =
             \<lparr> after =
                 \<lparr> contentText = content_text',
                   backgroundColor = js ''rgba(255, 200, 0, 0.2)'',
                   margin = js ''10px'' \<rparr>,
               dark_after_color = js ''rgba(255, 255, 255, 0.5)'',
               light_after_color = js ''rgba(0, 0, 0, 0.5)'' \<rparr> \<rparr>)"

subsection \<open>The name-to-value map of \<open>createInlineValueDecorationsInsideRange\<close>\<close>

text \<open>The loop over the expressions: set the entry, then leave the loop as soon as the
  map has \<open>MAX_NUM_INLINE_VALUES\<close> entries.\<close>

fun nameValueLoop ::
  "(js_string, js_string) js_map \<Rightarrow> expression list \<Rightarrow> (js_string, js_string) js_map" where
  "nameValueLoop m [] = m"
| "nameValueLoop m (expr # exprs) =
     (let m' = jsmap_set m (expr_name expr) (expr_value expr)
      in if jsmap_size m' \<ge> MAX_NUM_INLINE_VALUES then m' else nameValueLoop m' exprs)"

definition buildNameValueMap :: "expression list \<Rightarrow> (js_string, js_string) js_map" where
  "buildNameValueMap expressions = nameValueLoop [] expressions"

subsection \<open>The names on each line\<close>

text \<open>The inner loop over the positions of one name: a position inside the range adds
  the name to the array of its line, once.\<close>

fun addPositions ::
  "host \<Rightarrow> Range \<Rightarrow> js_string \<Rightarrow> (nat, js_string list) js_map \<Rightarrow> Position list
     \<Rightarrow> (nat, js_string list) js_map" where
  "addPositions h rng name m [] = m"
| "addPositions h rng name m (position # positions) =
     addPositions h rng name
       (if containsPosition h rng position then
          (let m1 = (if \<not> jsmap_has m (lineNumber position)
                     then jsmap_set m (lineNumber position) [] else m)
           in case jsmap_get m1 (lineNumber position) of
                Some names \<Rightarrow>
                  if name \<notin> set names
                  then jsmap_set m1 (lineNumber position) (names @ [name]) else m1
              | None \<Rightarrow> m1)
        else m)
       positions"

text \<open>\<open>nameValueMap.forEach\<close>: the names in insertion order.\<close>

fun lineToNamesLoop ::
  "host \<Rightarrow> Range \<Rightarrow> (js_string, Position list) js_map \<Rightarrow> (nat, js_string list) js_map
     \<Rightarrow> (js_string, js_string) js_map \<Rightarrow> (nat, js_string list) js_map" where
  "lineToNamesLoop h rng wordToPositionsMap m [] = m"
| "lineToNamesLoop h rng wordToPositionsMap m ((name, v) # nameValues) =
     lineToNamesLoop h rng wordToPositionsMap
       (case jsmap_get wordToPositionsMap name of
          Some positions \<Rightarrow> addPositions h rng name m positions
        | None \<Rightarrow> m)
       nameValues"

definition buildLineToNamesMap ::
  "host \<Rightarrow> Range \<Rightarrow> (js_string, Position list) js_map \<Rightarrow> (js_string, js_string) js_map
     \<Rightarrow> (nat, js_string list) js_map" where
  "buildLineToNamesMap h rng wordToPositionsMap nameValueMap =
     lineToNamesLoop h rng wordToPositionsMap [] nameValueMap"


subsection \<open>\<open>getWordToPositionsMap\<close>\<close>

text \<open>The loop over the tokens of one line.\<close>

fun tokensLoop ::
  "host \<Rightarrow> nat \<Rightarrow> js_string \<Rightarrow> (js_string, Position list) js_map \<Rightarrow> token list
     \<Rightarrow> (js_string, Position list) js_map" where
  "tokensLoop h line_number lineContent m [] = m"
| "tokensLoop h line_number lineContent m (tok # toks) =
     tokensLoop h line_number lineContent
       (let tokenStr = substring lineContent (startOffset tok) (endOffset tok)
        in if standardTokenType tok = Other then
             (case DEFAULT_WORD_REGEXP_exec h tokenStr of
                Some word \<Rightarrow>
                  (let m1 = (if \<not> jsmap_has m word then jsmap_set m word [] else m)
                   in case jsmap_get m1 word of
                        Some positions \<Rightarrow>
                          jsmap_set m1 word
                            (positions @ [\<lparr> lineNumber = line_number, column = startOffset tok \<rparr>])
                      | None \<Rightarrow> m1)
              | None \<Rightarrow> m)
           else m)
       toks"

text \<open>The loop over the lines, \<open>line_number\<close> being the number of the first line of
  the list.\<close>

fun linesLoop ::
  "host \<Rightarrow> nat \<Rightarrow> (js_string, Position list) js_map \<Rightarrow> line list
     \<Rightarrow> (js_string, Position list) js_map" where
  "linesLoop h line_number m [] = m"
| "linesLoop h line_number m (l # ls) =
     linesLoop h (Suc line_number)
       (if length (content l) > MAX_TOKENIZATION_LINE_LEN then m
        else tokensLoop h line_number (content l) m (tokens l))
       ls"

definition getWordToPositionsMap ::
  "host \<Rightarrow> state \<Rightarrow> (js_string, Position list) js_map \<times> state" where
  "getWordToPositionsMap h s =
     (case wordToLineNumbersMap s of
        Some m \<Rightarrow> (m, s)
      | None \<Rightarrow>
          (case editor_model s of
             None \<Rightarrow> ([], s\<lparr> wordToLineNumbersMap := Some [] \<rparr>)
           | Some model \<Rightarrow>
               (let m = linesLoop h 1 [] (lines model)
                in (m, s\<lparr> wordToLineNumbersMap := Some m \<rparr>))))"

subsection \<open>\<open>createInlineValueDecorationsInsideRange\<close>\<close>

text \<open>\<open>model.getLineContent\<close> throws on a line number outside the model.\<close>

datatype error = IllegalLineNumber

definition getLineContent :: "text_model \<Rightarrow> nat \<Rightarrow> error + js_string" where
  "getLineContent model n =
     (if 1 \<le> n \<and> n \<le> length (lines model) then Inr (content (lines model ! (n - 1)))
      else Inl IllegalLineNumber)"

text \<open>
  \<open>names.sort(compare)\<close> with the comparator
  \<open>content.indexOf(first) - content.indexOf(second)\<close>: the sort is stable and the
  comparator is the difference of integer keys, so the result is the stable sort by the
  key. The comparator, and with it \<open>getLineContent\<close>, runs only when there are at least
  two names.
\<close>

definition sortNames :: "text_model \<Rightarrow> nat \<Rightarrow> js_string list \<Rightarrow> error + js_string list" where
  "sortNames model lnum names =
     (if length names < 2 then Inr names
      else case getLineContent model lnum of
             Inl e \<Rightarrow> Inl e
           | Inr lineContent \<Rightarrow> Inr (sort_key (\<lambda>name. indexOf lineContent name) names))"

definition lineContentText :: "(js_string, js_string) js_map \<Rightarrow> js_string list \<Rightarrow> js_string" where
  "lineContentText nameValueMap names =
     join (js '', '')
       (map (\<lambda>name. name @ js '' = '' @
               (case jsmap_get nameValueMap name of Some v \<Rightarrow> v | None \<Rightarrow> js ''undefined''))
          names)"

text \<open>\<open>lineToNamesMap.forEach\<close>: one decoration per line, in insertion order.\<close>

fun decorationsLoop ::
  "host \<Rightarrow> text_model \<Rightarrow> (js_string, js_string) js_map \<Rightarrow> (nat, js_string list) js_map
     \<Rightarrow> error + decoration list" where
  "decorationsLoop h model nameValueMap [] = Inr []"
| "decorationsLoop h model nameValueMap ((lnum, names) # rest) =
     (case sortNames model lnum names of
        Inl e \<Rightarrow> Inl e
      | Inr sortedNames \<Rightarrow>
          (case decorationsLoop h model nameValueMap rest of
             Inl e \<Rightarrow> Inl e
           | Inr decorations \<Rightarrow>
               Inr (createInlineValueDecoration h lnum (lineContentText nameValueMap sortedNames)
                      # decorations)))"

definition createInlineValueDecorationsInsideRange ::
  "host \<Rightarrow> expression list \<Rightarrow> Range \<Rightarrow> text_model \<Rightarrow> state
     \<Rightarrow> (error + decoration list) \<times> state" where
  "createInlineValueDecorationsInsideRange h expressions rng model s =
     (let nameValueMap = buildNameValueMap expressions;
          (wordToPositionsMap, s1) = getWordToPositionsMap h s;
          lineToNamesMap = buildLineToNamesMap h rng wordToPositionsMap nameValueMap
      in (decorationsLoop h model nameValueMap lineToNamesMap, s1))"

subsection \<open>\<open>updateInlineValueDecorations\<close>\<close>

text \<open>The scopes of the frame, one call of \<open>createInlineValueDecorationsInsideRange\<close>
  each; \<open>Promise.all\<close> rejects with the first error.\<close>

fun decorationsPerScope ::
  "host \<Rightarrow> stack_frame \<Rightarrow> text_model \<Rightarrow> scope list \<Rightarrow> state
     \<Rightarrow> (error + decoration list list) \<times> state" where
  "decorationsPerScope h stackFrame model [] s = (Inr [], s)"
| "decorationsPerScope h stackFrame model (scp # scopes) s =
     (let rng0 = Range_new h 0 0 (startLineNumber (frame_range stackFrame))
                   (startColumn (frame_range stackFrame));
          rng = (case scope_range scp of
                   Some r \<Rightarrow> setStartPosition h rng0 (startLineNumber r) (startColumn r)
                 | None \<Rightarrow> rng0);
          (r, s1) = createInlineValueDecorationsInsideRange h (scope_children scp) rng model s;
          (rs, s2) = decorationsPerScope h stackFrame model scopes s1
      in (case r of
            Inl e \<Rightarrow> Inl e
          | Inr ds \<Rightarrow> (case rs of Inl e \<Rightarrow> Inl e | Inr dss \<Rightarrow> Inr (ds # dss)),
          s2))"

definition scheduleRemoveInlineValues :: "state \<Rightarrow> state" where
  "scheduleRemoveInlineValues s =
     (if \<not> isScheduled (removeInlineValuesScheduler s)
      then s\<lparr> removeInlineValuesScheduler := schedule 100 (removeInlineValuesScheduler s) \<rparr>
      else s)"

definition updateInlineValueDecorations ::
  "host \<Rightarrow> frame_ref option \<Rightarrow> state \<Rightarrow> (error + unit) \<times> state" where
  "updateInlineValueDecorations h stackFrame s =
     (case editor_model s of
        None \<Rightarrow> (Inr (), scheduleRemoveInlineValues s)
      | Some model \<Rightarrow>
          (case stackFrame of
             None \<Rightarrow> (Inr (), scheduleRemoveInlineValues s)
           | Some sfRef \<Rightarrow>
               (let sf = frames s sfRef
                in if \<not> debug_inlineValues s \<or> model_uri model \<noteq> source_uri (source sf)
                   then (Inr (), scheduleRemoveInlineValues s)
                   else
                     (let s1 = s\<lparr> removeInlineValuesScheduler :=
                                     cancel (removeInlineValuesScheduler s) \<rparr>;
                          (r, s2) = decorationsPerScope h sf model (mostSpecificScopes sf) s1
                      in case r of
                           Inl e \<Rightarrow> (Inl e, s2)
                         | Inr dss \<Rightarrow>
                             (Inr (),
                              s2\<lparr> hostCalls :=
                                    hostCalls s2 @ [Editor_setDecorations (concat dss)] \<rparr>)))))"


section \<open>Hover\<close>

definition showHover :: "Range \<Rightarrow> bool \<Rightarrow> state \<Rightarrow> state" where
  "showHover rng focus s =
     (case focusedStackFrame s of
        None \<Rightarrow> s
      | Some sf \<Rightarrow>
          (case editor_model s of
             None \<Rightarrow> s
           | Some model \<Rightarrow>
               if source_uri (source (frames s sf)) = model_uri model
               then s\<lparr> hostCalls := hostCalls s @ [HoverWidget_showAt rng focus] \<rparr>
               else s))"

definition hideHoverWidget :: "state \<Rightarrow> state" where
  "hideHoverWidget s =
     (let s1 = (if \<not> isScheduled (hideHoverScheduler s) \<and> hoverWidget_isVisible s
                then s\<lparr> hideHoverScheduler := schedule (2 * HOVER_DELAY) (hideHoverScheduler s) \<rparr>
                else s);
          s2 = s1\<lparr> showHoverScheduler := cancel (showHoverScheduler s1) \<rparr>
      in s2\<lparr> provideNonDebugHoverScheduler := cancel (provideNonDebugHoverScheduler s2) \<rparr>)"

text \<open>The members of \<open>MouseTargetType\<close> and of \<open>KeyCode\<close> that the class tells apart;
  every other member by its number.\<close>

datatype MouseTargetType = CONTENT_TEXT | CONTENT_WIDGET | MouseTargetType_other nat

datatype KeyCode = Ctrl | Meta | KeyCode_other nat

record mouse_target =
  target_type :: MouseTargetType
  detail :: "js_string option"
  target_position :: "Position option"
  target_range :: "Range option"

record mouse_event =
  target :: mouse_target
  metaKey :: bool
  ctrlKey :: bool
  posx :: real
  posy :: real

definition onEditorMouseDown :: "host \<Rightarrow> mouse_event \<Rightarrow> state \<Rightarrow> state" where
  "onEditorMouseDown h mouseEvent s =
     (let s1 = s\<lparr> mouseDown := True \<rparr>
      in if target_type (target mouseEvent) = CONTENT_WIDGET
            \<and> detail (target mouseEvent) = Some (DebugHoverWidget_ID h)
         then s1
         else hideHoverWidget s1)"

definition onEditorMouseMove :: "host \<Rightarrow> mouse_event \<Rightarrow> state \<Rightarrow> state" where
  "onEditorMouseMove h mouseEvent s =
     (if debugService_state s \<noteq> Stopped then s
      else
        (let s1 = (if debug_enableAllHovers s \<and> target_position (target mouseEvent) \<noteq> None
                   then s\<lparr> nonDebugHoverPosition := target_position (target mouseEvent),
                           provideNonDebugHoverScheduler :=
                             schedule HOVER_DELAY (provideNonDebugHoverScheduler s) \<rparr>
                   else s);
             targetType = target_type (target mouseEvent);
             stopKey = (if isMacintosh h then metaKey mouseEvent else ctrlKey mouseEvent)
         in if targetType = CONTENT_WIDGET
               \<and> detail (target mouseEvent) = Some (DebugHoverWidget_ID h) \<and> \<not> stopKey
            then s1
            else if targetType = CONTENT_TEXT then
              (case target_range (target mouseEvent) of
                 Some r \<Rightarrow>
                   if \<not> equalsRange h r (hoverRange s1)
                   then s1\<lparr> hoverRange := Some r,
                            showHoverScheduler := schedule HOVER_DELAY (showHoverScheduler s1) \<rparr>
                   else s1
               | None \<Rightarrow> s1)
            else if \<not> mouseDown s1 then hideHoverWidget s1
            else s1))"

definition onKeyDown :: "host \<Rightarrow> KeyCode \<Rightarrow> state \<Rightarrow> state" where
  "onKeyDown h keyCode s =
     (let stopKey = (if isMacintosh h then Meta else Ctrl)
      in if keyCode \<noteq> stopKey then hideHoverWidget s else s)"


section \<open>Exception widget\<close>

text \<open>
  Modelled from the spec: \<open>first\<close> (\<open>vs/base/common/arrays\<close>) is not part of the sources at
  hand. It gives the first element of the array that satisfies the predicate, and the
  given value when there is none ("the first frame of its thread's call stack whose
  source is available").
\<close>

definition first :: "'a list \<Rightarrow> ('a \<Rightarrow> bool) \<Rightarrow> 'a option \<Rightarrow> 'a option" where
  "first array fn notFoundValue =
     (case List.find fn array of Some x \<Rightarrow> Some x | None \<Rightarrow> notFoundValue)"

definition closeExceptionWidget :: "state \<Rightarrow> state" where
  "closeExceptionWidget s =
     (case exceptionWidget s of
        Some w \<Rightarrow> s\<lparr> exceptionWidget := None,
                     hostCalls := hostCalls s @ [ExceptionWidget_dispose] \<rparr>
      | None \<Rightarrow> s)"

definition showExceptionWidget ::
  "exception_info \<Rightarrow> session option \<Rightarrow> nat \<Rightarrow> nat \<Rightarrow> state \<Rightarrow> state" where
  "showExceptionWidget info debugSession line_number col s =
     (let s1 = (case exceptionWidget s of
                  Some w \<Rightarrow> s\<lparr> hostCalls := hostCalls s @ [ExceptionWidget_dispose] \<rparr>
                | None \<Rightarrow> s)
      in s1\<lparr> exceptionWidget :=
               Some \<lparr> widget_exceptionInfo = info, widget_debugSession = debugSession \<rparr>,
             hostCalls :=
               hostCalls s1 @ [ExceptionWidget_show \<lparr> lineNumber = line_number, column = col \<rparr>,
                               Editor_revealLine line_number] \<rparr>)"

definition toggleExceptionWidget :: "state \<Rightarrow> state" where
  "toggleExceptionWidget s =
     (case editor_model s of
        None \<Rightarrow> closeExceptionWidget s
      | Some model \<Rightarrow>
          (case focusedStackFrame s of
             None \<Rightarrow> closeExceptionWidget s
           | Some focusedSf \<Rightarrow>
               (let stack = callStack (thread (frames s focusedSf))
                in if length stack = 0 then closeExceptionWidget s
                   else
                     (let exceptionSf =
                            first stack
                              (\<lambda>sf. available (source (frames s sf))
                                     \<and> presentationHint (source (frames s sf))
                                         \<noteq> Some (js ''deemphasize''))
                              None
                      in case exceptionSf of
                           None \<Rightarrow> closeExceptionWidget s
                         | Some exSf \<Rightarrow>
                             if exSf \<noteq> focusedSf then closeExceptionWidget s
                             else
                               (let sameUri =
                                      (source_uri (source (frames s exSf)) = model_uri model)
                                in if exceptionWidget s \<noteq> None \<and> \<not> sameUri
                                   then closeExceptionWidget s
                                   else if sameUri then
                                     (case exceptionInfo (thread (frames s focusedSf)) of
                                        Some info \<Rightarrow>
                                          if startLineNumber (frame_range (frames s exSf)) \<noteq> 0
                                             \<and> startColumn (frame_range (frames s exSf)) \<noteq> 0
                                          then showExceptionWidget info (focusedSession s)
                                                 (startLineNumber (frame_range (frames s exSf)))
                                                 (startColumn (frame_range (frames s exSf))) s
                                          else s
                                      | None \<Rightarrow> s)
                                   else s)))))"


text \<open>
  \<open>toggleExceptionWidget\<close> is an async method with one \<open>await\<close>. A caller that does not
  await it goes on when the method reaches its \<open>await\<close>, and the rest of the method runs
  after the caller's own synchronous code. These are the two parts: up to the \<open>await\<close>
  (with the focused frame when the \<open>await\<close> is reached), and from there on.
\<close>

definition toggleExceptionWidget_sync :: "state \<Rightarrow> state \<times> frame_ref option" where
  "toggleExceptionWidget_sync s =
     (case editor_model s of
        None \<Rightarrow> (closeExceptionWidget s, None)
      | Some model \<Rightarrow>
          (case focusedStackFrame s of
             None \<Rightarrow> (closeExceptionWidget s, None)
           | Some focusedSf \<Rightarrow>
               (let stack = callStack (thread (frames s focusedSf))
                in if length stack = 0 then (closeExceptionWidget s, None)
                   else
                     (let exceptionSf =
                            first stack
                              (\<lambda>sf. available (source (frames s sf))
                                     \<and> presentationHint (source (frames s sf))
                                         \<noteq> Some (js ''deemphasize''))
                              None
                      in case exceptionSf of
                           None \<Rightarrow> (closeExceptionWidget s, None)
                         | Some exSf \<Rightarrow>
                             if exSf \<noteq> focusedSf then (closeExceptionWidget s, None)
                             else
                               (let sameUri =
                                      (source_uri (source (frames s exSf)) = model_uri model)
                                in if exceptionWidget s \<noteq> None \<and> \<not> sameUri
                                   then (closeExceptionWidget s, None)
                                   else if sameUri then (s, Some focusedSf)
                                   else (s, None))))))"

definition toggleExceptionWidget_resume :: "frame_ref \<Rightarrow> state \<Rightarrow> state" where
  "toggleExceptionWidget_resume focusedSf s =
     (case exceptionInfo (thread (frames s focusedSf)) of
        Some info \<Rightarrow>
          if startLineNumber (frame_range (frames s focusedSf)) \<noteq> 0
             \<and> startColumn (frame_range (frames s focusedSf)) \<noteq> 0
          then showExceptionWidget info (focusedSession s)
                 (startLineNumber (frame_range (frames s focusedSf)))
                 (startColumn (frame_range (frames s focusedSf))) s
          else s
      | None \<Rightarrow> s)"


section \<open>Hover configuration and configuration widget\<close>

definition applyHoverConfiguration :: "text_model \<Rightarrow> frame_ref option \<Rightarrow> state \<Rightarrow> state" where
  "applyHoverConfiguration model stackFrame s =
     (if (case stackFrame of
            Some sf \<Rightarrow> model_uri model = source_uri (source (frames s sf))
          | None \<Rightarrow> False)
      then s\<lparr> hostCalls := hostCalls s @
               [Editor_updateOptions
                  \<lparr> update_enabled = False, update_delay = None, update_sticky = None \<rparr>] \<rparr>
      else
        (let defaultConfiguration = config_editor_hover s
         in s\<lparr> hostCalls := hostCalls s @
                  [Editor_updateOptions
                     \<lparr> update_enabled = hover_enabled defaultConfiguration,
                       update_delay = Some (hover_delay defaultConfiguration),
                       update_sticky = Some (hover_sticky defaultConfiguration) \<rparr>] \<rparr>))"

text \<open>\<open>LAUNCH_JSON_REGEX.test\<close>: the string ends with \<open>launch.json\<close>.\<close>

definition LAUNCH_JSON_REGEX_test :: "js_string \<Rightarrow> bool" where
  "LAUNCH_JSON_REGEX_test str =
     (length (js ''launch.json'') \<le> length str
      \<and> drop (length str - length (js ''launch.json'')) str = js ''launch.json'')"

text \<open>The field keeps the disposed widget when no new one is created.\<close>

definition updateConfigurationWidgetVisibility :: "state \<Rightarrow> state" where
  "updateConfigurationWidgetVisibility s =
     (let s1 = (case configurationWidget s of
                  Some w \<Rightarrow> s\<lparr> hostCalls := hostCalls s @ [FloatingClickWidget_dispose] \<rparr>
                | None \<Rightarrow> s)
      in case editor_model s1 of
           Some model \<Rightarrow>
             if LAUNCH_JSON_REGEX_test (model_uri model) \<and> \<not> editor_readOnly s1
             then s1\<lparr> configurationWidget := Some AddConfigurationWidget,
                      hostCalls := hostCalls s1 @ [FloatingClickWidget_render] \<rparr>
             else s1
         | None \<Rightarrow> s1)"

text \<open>The local variables of \<open>addLaunchConfiguration\<close> that the visitor's callbacks
  update, and the callbacks in the order the visitor makes them.\<close>

record visit_state =
  configurationsArrayPosition :: "Position option"
  depthInArray :: int
  lastProperty :: "js_string option"

fun visitLoop :: "host \<Rightarrow> text_model \<Rightarrow> visit_state \<Rightarrow> json_event list \<Rightarrow> visit_state" where
  "visitLoop h model v [] = v"
| "visitLoop h model v (ObjectProperty property offset len # events) =
     visitLoop h model (v\<lparr> lastProperty := Some property \<rparr>) events"
| "visitLoop h model v (ArrayBegin offset len # events) =
     visitLoop h model
       ((if lastProperty v = Some (js ''configurations'') \<and> depthInArray v = 0
         then v\<lparr> configurationsArrayPosition := Some (getPositionAt h model (offset + 1)) \<rparr>
         else v)\<lparr> depthInArray := depthInArray v + 1 \<rparr>)
       events"
| "visitLoop h model v (ArrayEnd # events) =
     visitLoop h model (v\<lparr> depthInArray := depthInArray v - 1 \<rparr>) events"

definition addLaunchConfiguration :: "host \<Rightarrow> state \<Rightarrow> state" where
  "addLaunchConfiguration h s =
     (let s1 = s\<lparr> hostCalls := hostCalls s @
                    [Telemetry_publicLog (js ''debug/addLaunchConfiguration'')] \<rparr>
      in case editor_model s1 of
           None \<Rightarrow> s1
         | Some model \<Rightarrow>
             (let v = visitLoop h model
                        \<lparr> configurationsArrayPosition = None, depthInArray = 0,
                          lastProperty = None \<rparr>
                        (visit h (getValue h model));
                  s2 = s1\<lparr> hostCalls := hostCalls s1 @ [Editor_focus] \<rparr>
              in case configurationsArrayPosition v of
                   None \<Rightarrow> s2
                 | Some position \<Rightarrow>
                     (let s3 = (if getLineLastNonWhitespaceColumn h model (lineNumber position)
                                     > column position
                                then s2\<lparr> hostCalls := hostCalls s2 @
                                          [Editor_setPosition position,
                                           LineBreakInsert_runEditorCommand] \<rparr>
                                else s2)
                      in s3\<lparr> hostCalls := hostCalls s3 @
                               [Editor_setPosition position,
                                ExecuteCommand (js ''editor.action.insertLineAfter''),
                                ExecuteCommand (js ''editor.action.triggerSuggest'')] \<rparr>)))"


section \<open>Listeners and timers\<close>

text \<open>The listeners of \<open>registerListeners\<close>. The scroll listener is
  \<open>() => this.hideHoverWidget\<close>: it gives back the method and does not call it.\<close>

definition onMouseUp :: "state \<Rightarrow> state" where
  "onMouseUp s = s\<lparr> mouseDown := False \<rparr>"

definition onDidChangeModelContent :: "state \<Rightarrow> state" where
  "onDidChangeModelContent s =
     (let s1 = s\<lparr> wordToLineNumbersMap := None \<rparr>
      in s1\<lparr> updateInlineValuesScheduler := schedule 200 (updateInlineValuesScheduler s1) \<rparr>)"

definition onDidScrollChange :: "state \<Rightarrow> (state \<Rightarrow> state) \<times> state" where
  "onDidScrollChange s = (hideHoverWidget, s)"

definition onDidChangeState :: "State \<Rightarrow> state \<Rightarrow> state" where
  "onDidChangeState st s = (if st \<noteq> Stopped then toggleExceptionWidget s else s)"

definition onMouseLeave :: "mouse_event \<Rightarrow> state \<Rightarrow> state" where
  "onMouseLeave e s =
     (let s1 = s\<lparr> provideNonDebugHoverScheduler := cancel (provideNonDebugHoverScheduler s) \<rparr>
      in case hoverWidget_domNode s1 of
           None \<Rightarrow> s1
         | Some rect \<Rightarrow>
             if posx e < rect_left rect \<or> posx e > rect_right rect
                \<or> posy e < rect_top rect \<or> posy e > rect_bottom rect
             then hideHoverWidget s1
             else s1)"

definition onFocusStackFrame :: "host \<Rightarrow> frame_ref option \<Rightarrow> state \<Rightarrow> (error + unit) \<times> state" where
  "onFocusStackFrame h sf s =
     (let s1 = (case editor_model s of
                  Some model \<Rightarrow>
                    (let s0 = applyHoverConfiguration model sf s
                     in if (case sf of
                              Some f \<Rightarrow> source_uri (source (frames s f)) = model_uri model
                            | None \<Rightarrow> False)
                        then toggleExceptionWidget s0
                        else hideHoverWidget s0)
                | None \<Rightarrow> s)
      in updateInlineValueDecorations h sf s1)"

text \<open>
  The model-change listener calls \<open>toggleExceptionWidget\<close> without awaiting it: what
  that method does after its \<open>await\<close> comes after the listener's synchronous code. It is
  placed before the update pass, whose code before its own first \<open>await\<close> makes no call on
  the host and reads and writes nothing but the remove timer.
\<close>

definition onDidChangeModel :: "host \<Rightarrow> state \<Rightarrow> (error + unit) \<times> state" where
  "onDidChangeModel h s =
     (let stackFrame = focusedStackFrame s;
          s1 = (case editor_model s of
                  Some model \<Rightarrow> applyHoverConfiguration model stackFrame s
                | None \<Rightarrow> s);
          (s2, awaiting) = toggleExceptionWidget_sync s1;
          s3 = hideHoverWidget s2;
          s4 = updateConfigurationWidgetVisibility s3;
          s5 = s4\<lparr> wordToLineNumbersMap := None \<rparr>;
          s6 = (case awaiting of
                  Some focusedSf \<Rightarrow> toggleExceptionWidget_resume focusedSf s5
                | None \<Rightarrow> s5)
      in updateInlineValueDecorations h stackFrame s6)"

datatype scheduler =
    ShowHoverScheduler
  | HideHoverScheduler
  | ProvideNonDebugHoverScheduler
  | RemoveInlineValuesScheduler
  | UpdateInlineValuesScheduler

text \<open>The runners the five schedulers are created with.\<close>

definition runner :: "host \<Rightarrow> scheduler \<Rightarrow> state \<Rightarrow> state" where
  "runner h sch s =
     (case sch of
        ShowHoverScheduler \<Rightarrow>
          (case hoverRange s of Some r \<Rightarrow> showHover r False s | None \<Rightarrow> s)
      | HideHoverScheduler \<Rightarrow>
          (if \<not> hoverWidget_isHovered s
           then s\<lparr> hostCalls := hostCalls s @ [HoverWidget_hide] \<rparr> else s)
      | ProvideNonDebugHoverScheduler \<Rightarrow>
          (case editor_model s of
             Some model \<Rightarrow>
               (case nonDebugHoverPosition s of
                  Some p \<Rightarrow>
                    s\<lparr> hostCalls := hostCalls s @ [GetHover model p CancellationToken_None] \<rparr>
                | None \<Rightarrow> s)
           | None \<Rightarrow> s)
      | RemoveInlineValuesScheduler \<Rightarrow>
          s\<lparr> hostCalls := hostCalls s @ [Editor_removeDecorations] \<rparr>
      | UpdateInlineValuesScheduler \<Rightarrow>
          snd (updateInlineValueDecorations h (focusedStackFrame s) s))"

definition pendingTimer :: "scheduler \<Rightarrow> state \<Rightarrow> RunOnceScheduler" where
  "pendingTimer sch s =
     (case sch of
        ShowHoverScheduler \<Rightarrow> showHoverScheduler s
      | HideHoverScheduler \<Rightarrow> hideHoverScheduler s
      | ProvideNonDebugHoverScheduler \<Rightarrow> provideNonDebugHoverScheduler s
      | RemoveInlineValuesScheduler \<Rightarrow> removeInlineValuesScheduler s
      | UpdateInlineValuesScheduler \<Rightarrow> updateInlineValuesScheduler s)"

definition clearTimer :: "scheduler \<Rightarrow> state \<Rightarrow> state" where
  "clearTimer sch s =
     (case sch of
        ShowHoverScheduler \<Rightarrow> s\<lparr> showHoverScheduler := None \<rparr>
      | HideHoverScheduler \<Rightarrow> s\<lparr> hideHoverScheduler := None \<rparr>
      | ProvideNonDebugHoverScheduler \<Rightarrow> s\<lparr> provideNonDebugHoverScheduler := None \<rparr>
      | RemoveInlineValuesScheduler \<Rightarrow> s\<lparr> removeInlineValuesScheduler := None \<rparr>
      | UpdateInlineValuesScheduler \<Rightarrow> s\<lparr> updateInlineValuesScheduler := None \<rparr>)"

text \<open>The timer of a scheduler fires: only a pending timer can fire; the scheduler is
  then no longer scheduled, and its runner runs.\<close>

definition onTimeout :: "host \<Rightarrow> scheduler \<Rightarrow> state \<Rightarrow> state" where
  "onTimeout h sch s =
     (if isScheduled (pendingTimer sch s) then runner h sch (clearTimer sch s) else s)"

text \<open>The delay each scheduler is created with.\<close>

definition timeoutOf :: "scheduler \<Rightarrow> nat" where
  "timeoutOf sch =
     (case sch of
        ShowHoverScheduler \<Rightarrow> HOVER_DELAY
      | HideHoverScheduler \<Rightarrow> 2 * HOVER_DELAY
      | ProvideNonDebugHoverScheduler \<Rightarrow> HOVER_DELAY
      | RemoveInlineValuesScheduler \<Rightarrow> 100
      | UpdateInlineValuesScheduler \<Rightarrow> 200)"


section \<open>Construction, disposal and the operations as a whole\<close>

text \<open>The constructor, on a state that gives what the new contribution reads from the
  host: the fields get their initial values and no timer is pending.\<close>

definition construct :: "state \<Rightarrow> state" where
  "construct s =
     (let s0 = s\<lparr> nonDebugHoverPosition := None, hoverRange := None, mouseDown := False,
                  wordToLineNumbersMap := None, exceptionWidget := None,
                  configurationWidget := None,
                  showHoverScheduler := None, hideHoverScheduler := None,
                  provideNonDebugHoverScheduler := None,
                  removeInlineValuesScheduler := None,
                  updateInlineValuesScheduler := None \<rparr>;
          s1 = updateConfigurationWidgetVisibility s0;
          s2 = s1\<lparr> hostCalls := hostCalls s1 @ [RegisterDecorationType] \<rparr>
      in toggleExceptionWidget s2)"

definition getId :: "host \<Rightarrow> js_string" where
  "getId h = EDITOR_CONTRIBUTION_ID h"

text \<open>\<open>dispose\<close>: the hover widget, the configuration widget, and the disposables of
  \<open>toDispose\<close>, among them the show-hover, hide-hover and non-debug-hover schedulers (the
  other two schedulers are not in \<open>toDispose\<close>).\<close>

definition dispose :: "state \<Rightarrow> state" where
  "dispose s =
     (let s1 = s\<lparr> hostCalls := hostCalls s @ [HoverWidget_dispose] \<rparr>;
          s2 = (case configurationWidget s1 of
                  Some w \<Rightarrow> s1\<lparr> hostCalls := hostCalls s1 @ [FloatingClickWidget_dispose] \<rparr>
                | None \<Rightarrow> s1)
      in s2\<lparr> showHoverScheduler := cancel (showHoverScheduler s2),
              hideHoverScheduler := cancel (hideHoverScheduler s2),
              provideNonDebugHoverScheduler := cancel (provideNonDebugHoverScheduler s2) \<rparr>)"

text \<open>
  Every operation of the class that acts on the state: the constructor, the listeners
  with what the host passes to them, the time-outs of the five schedulers, the public
  methods \<open>showHover\<close> and \<open>addLaunchConfiguration\<close> (also the click listener of the
  configuration widget), and \<open>dispose\<close>. An async operation is run to its end.
\<close>

datatype event =
    Construct
  | DidFocusStackFrame "frame_ref option"
  | MouseDown mouse_event
  | MouseUp
  | MouseMove mouse_event
  | MouseLeave mouse_event
  | KeyDown KeyCode
  | DidChangeModelContent
  | DidChangeModel
  | DidScrollChange
  | DidChangeState State
  | Timeout scheduler
  | ShowHover Range bool
  | AddLaunchConfiguration
  | Dispose

definition handle :: "host \<Rightarrow> event \<Rightarrow> state \<Rightarrow> state" where
  "handle h e s =
     (case e of
        Construct \<Rightarrow> construct s
      | DidFocusStackFrame sf \<Rightarrow> snd (onFocusStackFrame h sf s)
      | MouseDown mouseEvent \<Rightarrow> onEditorMouseDown h mouseEvent s
      | MouseUp \<Rightarrow> onMouseUp s
      | MouseMove mouseEvent \<Rightarrow> onEditorMouseMove h mouseEvent s
      | MouseLeave mouseEvent \<Rightarrow> onMouseLeave mouseEvent s
      | KeyDown keyCode \<Rightarrow> onKeyDown h keyCode s
      | DidChangeModelContent \<Rightarrow> onDidChangeModelContent s
      | DidChangeModel \<Rightarrow> snd (onDidChangeModel h s)
      | DidScrollChange \<Rightarrow> snd (onDidScrollChange s)
      | DidChangeState st \<Rightarrow> onDidChangeState st s
      | Timeout sch \<Rightarrow> onTimeout h sch s
      | ShowHover rng focus \<Rightarrow> showHover rng focus s
      | AddLaunchConfiguration \<Rightarrow> addLaunchConfiguration h s
      | Dispose \<Rightarrow> dispose s)"

text \<open>A sequence of operations, one after the other.\<close>

definition run :: "host \<Rightarrow> event list \<Rightarrow> state \<Rightarrow> state" where
  "run h events s = foldl (\<lambda>s' e. handle h e s') s events"

text \<open>A burst of model-content changes: the editor's model takes each new content in
  turn and the listener runs after each change, no timer firing in between.\<close>

fun contentChanges :: "text_model list \<Rightarrow> state \<Rightarrow> state" where
  "contentChanges [] s = s"
| "contentChanges (m # ms) s =
     contentChanges ms (onDidChangeModelContent (s\<lparr> editor_model := Some m \<rparr>))"


section \<open>Notions used in the statements\<close>

text \<open>The names that occur in a line-to-names map: the names for which
  \<open>createInlineValueDecorationsInsideRange\<close> produces inline value decorations.\<close>

definition namesOf :: "(nat, js_string list) js_map \<Rightarrow> js_string set" where
  "namesOf m = (\<Union>entry \<in> set m. set (snd entry))"

text \<open>A hundred expressions with the distinct names \<open>""\<close>, \<open>"a"\<close>, \<open>"aa"\<close>, ...\<close>

definition manyExpressions :: "expression list" where
  "manyExpressions = map (\<lambda>n. \<lparr> expr_name = replicate n 97, expr_value = [] \<rparr>) [0..<100]"


text \<open>A line of the model that \<open>getWordToPositionsMap\<close> does not skip: a line of the
  model with at most 500 code units (\<open>MAX_TOKENIZATION_LINE_LEN\<close>).\<close>

definition shortLine :: "text_model \<Rightarrow> nat \<Rightarrow> bool" where
  "shortLine model lnum \<longleftrightarrow>
     1 \<le> lnum \<and> lnum \<le> length (lines model)
     \<and> length (content (lines model ! (lnum - 1))) \<le> 500"

text \<open>Where a position of the word-to-positions map comes from: a token of standard
  type \<open>Other\<close> on a line that is not skipped, starting at the position's column, on
  whose text the default word regular expression matches the word.\<close>

definition wordPositionOrigin :: "host \<Rightarrow> text_model \<Rightarrow> js_string \<Rightarrow> Position \<Rightarrow> bool" where
  "wordPositionOrigin h model word p \<longleftrightarrow>
     shortLine model (lineNumber p)
     \<and> (\<exists>tok \<in> set (tokens (lines model ! (lineNumber p - 1))).
           standardTokenType tok = Other
           \<and> column p = startOffset tok
           \<and> DEFAULT_WORD_REGEXP_exec h
                (substring (content (lines model ! (lineNumber p - 1)))
                   (startOffset tok) (endOffset tok)) = Some word)"

text \<open>The cached map, when there is one, is the map of the current model. The
  model-content listener keeps this up by clearing the cache.\<close>

definition wordMapUpToDate :: "host \<Rightarrow> state \<Rightarrow> bool" where
  "wordMapUpToDate h s =
     (case wordToLineNumbersMap s of
        None \<Rightarrow> True
      | Some m \<Rightarrow>
          (case editor_model s of
             None \<Rightarrow> m = []
           | Some model \<Rightarrow> m = linesLoop h 1 [] (lines model)))"

text \<open>Every position of a word-to-positions map satisfies \<open>Q\<close>; every line of a
  line-to-names map satisfies \<open>K\<close> and every name on it \<open>N\<close>.\<close>

definition wordOK :: "(js_string \<Rightarrow> Position \<Rightarrow> bool) \<Rightarrow> (js_string, Position list) js_map \<Rightarrow> bool" where
  "wordOK Q m = (\<forall>entry \<in> set m. \<forall>p \<in> set (snd entry). Q (fst entry) p)"

definition entryOK ::
  "(nat \<Rightarrow> bool) \<Rightarrow> (nat \<Rightarrow> js_string \<Rightarrow> bool) \<Rightarrow> (nat, js_string list) js_map \<Rightarrow> bool" where
  "entryOK K N m = (\<forall>entry \<in> set m. K (fst entry) \<and> (\<forall>name \<in> set (snd entry). N (fst entry) name))"

text \<open>The calls made on the host between two states.\<close>

definition newHostCalls :: "state \<Rightarrow> state \<Rightarrow> host_call list" where
  "newHostCalls s s' = drop (length (hostCalls s)) (hostCalls s')"

text \<open>Every call of \<open>getHover\<close> in a list of calls is made with
  \<open>CancellationToken.None\<close>; an operation only adds calls to those made before, and adds
  such calls only.\<close>

definition tokensNone :: "host_call list \<Rightarrow> bool" where
  "tokensNone calls =
     (\<forall>c \<in> set calls.
        case c of GetHover model p token \<Rightarrow> token = CancellationToken_None | _ \<Rightarrow> True)"

definition callsExtended :: "state \<Rightarrow> state \<Rightarrow> bool" where
  "callsExtended s s' \<longleftrightarrow>
     hostCalls s' = hostCalls s @ newHostCalls s s' \<and> tokensNone (newHostCalls s s')"

text \<open>What an operation does to the timer of a scheduler: it leaves it as it is, or
  the timer is gone (cancelled or fired), or it is armed with the scheduler's delay.\<close>

definition timerKept :: "scheduler \<Rightarrow> state \<Rightarrow> state \<Rightarrow> bool" where
  "timerKept sch s s' \<longleftrightarrow>
     pendingTimer sch s' = pendingTimer sch s
     \<or> pendingTimer sch s' = None
     \<or> pendingTimer sch s' = Some (timeoutOf sch)"

definition allTimersKept :: "state \<Rightarrow> state \<Rightarrow> bool" where
  "allTimersKept s s' =
     list_all (\<lambda>sch. timerKept sch s s')
       [ShowHoverScheduler, HideHoverScheduler, ProvideNonDebugHoverScheduler,
        RemoveInlineValuesScheduler, UpdateInlineValuesScheduler]"

text \<open>Both together: the step from \<open>s\<close> to \<open>s'\<close> only adds calls, none of them a
  \<open>getHover\<close> with another token, and treats every timer as said.\<close>

definition regular :: "state \<Rightarrow> state \<Rightarrow> bool" where
  "regular s s' \<longleftrightarrow> callsExtended s s' \<and> allTimersKept s s'"

text \<open>
  The conditions of \<open>toggleExceptionWidget\<close> in the words of its description: the first
  frame of a call stack whose source is available and not presentation-hinted
  \<open>deemphasize\<close>; the conditions under which the widget is shown; and the cases in which
  an existing widget is closed.
\<close>

definition firstAvailableFrame :: "state \<Rightarrow> frame_ref list \<Rightarrow> frame_ref option" where
  "firstAvailableFrame s stack =
     List.find (\<lambda>sf. available (source (frames s sf))
                      \<and> presentationHint (source (frames s sf)) \<noteq> Some (js ''deemphasize'')) stack"

definition showConditions :: "state \<Rightarrow> bool" where
  "showConditions s =
     (case editor_model s of
        None \<Rightarrow> False
      | Some model \<Rightarrow>
          (case focusedStackFrame s of
             None \<Rightarrow> False
           | Some f \<Rightarrow>
               firstAvailableFrame s (callStack (thread (frames s f))) = Some f
               \<and> source_uri (source (frames s f)) = model_uri model
               \<and> exceptionInfo (thread (frames s f)) \<noteq> None
               \<and> startLineNumber (frame_range (frames s f)) \<noteq> 0
               \<and> startColumn (frame_range (frames s f)) \<noteq> 0))"

definition closeCases :: "state \<Rightarrow> bool" where
  "closeCases s =
     (case editor_model s of
        None \<Rightarrow> True
      | Some model \<Rightarrow>
          (case focusedStackFrame s of
             None \<Rightarrow> True
           | Some f \<Rightarrow>
               callStack (thread (frames s f)) = []
               \<or> firstAvailableFrame s (callStack (thread (frames s f))) \<noteq> Some f
               \<or> (source_uri (source (frames s f)) \<noteq> model_uri model
                   \<and> exceptionWidget s \<noteq> None)))"

text \<open>
  A concrete editor: a host with simple stand-ins for its functions (the regular
  expression matches a whole non-empty token, a range contains the positions from its
  start to its end, the JSON visitor makes no callback), a model of two lines (\<open>x\<close>, and a line of 501 code units),
  a debug session stopped in a focused frame of that file whose thread has no exception
  info, an open exception widget, a visible hover widget, a hover range and a non-debug
  hover position from an earlier mouse move, and the pending show-hover and
  non-debug-hover timers of that move; the same while the session is running; and the same with
  exception info and no widget.
\<close>

definition exampleHost :: host where
  "exampleHost =
     \<lparr> isMacintosh = False,
       DebugHoverWidget_ID = js ''debug.hoverWidget'',
       MAX_SAFE_SMALL_INTEGER = 1073741824,
       DEFAULT_WORD_REGEXP_exec = (\<lambda>str. if str = [] then None else Some str),
       Range_new = (\<lambda>sl sc el ec. \<lparr> startLineNumber = sl, startColumn = sc,
                                      endLineNumber = el, endColumn = ec \<rparr>),
       setStartPosition = (\<lambda>r sl sc. r\<lparr> startLineNumber := sl, startColumn := sc \<rparr>),
       containsPosition =
         (\<lambda>r p. startLineNumber r \<le> lineNumber p \<and> lineNumber p \<le> endLineNumber r
                \<and> (if lineNumber p = startLineNumber r then startColumn r \<le> column p
                    else True)
                \<and> (if lineNumber p = endLineNumber r then column p \<le> endColumn r
                    else True)),
       equalsRange = (\<lambda>r other. other = Some r),
       EDITOR_CONTRIBUTION_ID = js ''editor.contrib.debug'',
       visit = (\<lambda>str. []),
       getValue = (\<lambda>model. concat (map content (lines model))),
       getPositionAt = (\<lambda>model offset. \<lparr> lineNumber = 1, column = offset + 1 \<rparr>),
       getLineLastNonWhitespaceColumn = (\<lambda>model lnum. 0) \<rparr>"

definition exampleModel :: text_model where
  "exampleModel =
     \<lparr> model_uri = js ''file:///a.js'',
       lines =
         [ \<lparr> content = js ''x'',
             tokens = [\<lparr> startOffset = 0, endOffset = 1, standardTokenType = Other \<rparr>] \<rparr>,
           \<lparr> content = replicate 501 121,
             tokens = [\<lparr> startOffset = 0, endOffset = 501, standardTokenType = Other \<rparr>] \<rparr> ] \<rparr>"

definition exampleFrame :: stack_frame where
  "exampleFrame =
     \<lparr> source = \<lparr> source_uri = js ''file:///a.js'', available = True, presentationHint = None \<rparr>,
       frame_range = \<lparr> startLineNumber = 2, startColumn = 1, endLineNumber = 2, endColumn = 5 \<rparr>,
       thread = \<lparr> callStack = [0], exceptionInfo = None \<rparr>,
       mostSpecificScopes =
         [\<lparr> scope_children = [\<lparr> expr_name = js ''x'', expr_value = js ''1'' \<rparr>],
            scope_range = None \<rparr>] \<rparr>"

definition exampleWidget :: exception_widget where
  "exampleWidget =
     \<lparr> widget_exceptionInfo = \<lparr> exception_id = None, description = Some (js ''boom'') \<rparr>,
       widget_debugSession = None \<rparr>"

definition exampleState :: state where
  "exampleState =
     \<lparr> editor_model = Some exampleModel,
       debugService_state = Stopped,
       frames = (\<lambda>r. exampleFrame),
       focusedStackFrame = Some 0,
       focusedSession = None,
       debug_enableAllHovers = True,
       debug_inlineValues = True,
       config_editor_hover = \<lparr> hover_enabled = True, hover_delay = 300, hover_sticky = True \<rparr>,
       editor_readOnly = False,
       hoverWidget_isVisible = True,
       hoverWidget_isHovered = False,
       hoverWidget_domNode =
         Some \<lparr> rect_left = 10, rect_right = 60, rect_top = 10, rect_bottom = 30 \<rparr>,
       nonDebugHoverPosition = Some \<lparr> lineNumber = 1, column = 3 \<rparr>,
       hoverRange = Some \<lparr> startLineNumber = 1, startColumn = 3,
                            endLineNumber = 1, endColumn = 4 \<rparr>,
       mouseDown = False,
       wordToLineNumbersMap = None,
       exceptionWidget = Some exampleWidget,
       configurationWidget = None,
       showHoverScheduler = Some 300,
       hideHoverScheduler = None,
       provideNonDebugHoverScheduler = Some 300,
       removeInlineValuesScheduler = None,
       updateInlineValuesScheduler = None,
       hostCalls = [] \<rparr>"

definition exampleMouseEvent :: mouse_event where
  "exampleMouseEvent =
     \<lparr> target = \<lparr> target_type = CONTENT_TEXT, detail = None,
                  target_position = Some \<lparr> lineNumber = 1, column = 1 \<rparr>,
                  target_range = Some \<lparr> startLineNumber = 1, startColumn = 1,
                                        endLineNumber = 1, endColumn = 2 \<rparr> \<rparr>,
       metaKey = False, ctrlKey = False, posx = 100, posy = 100 \<rparr>"

definition runningState :: state where
  "runningState = exampleState\<lparr> debugService_state := Running \<rparr>"

definition exceptionFrame :: stack_frame where
  "exceptionFrame =
     exampleFrame\<lparr> thread := \<lparr> callStack = [0],
                     exceptionInfo = Some \<lparr> exception_id = None, description = Some (js ''boom'') \<rparr> \<rparr> \<rparr>"

definition exceptionState :: state where
  "exceptionState = exampleState\<lparr> frames := (\<lambda>r. exceptionFrame), exceptionWidget := None \<rparr>"


section \<open>Properties of the JavaScript map\<close>

lemma map_of_jsmap_set: "map_of (jsmap_set m k v) = (map_of m)(k \<mapsto> v)"
  by (induction m) auto

lemma jsmap_set_keys: "fst ` set (jsmap_set m k v) = insert k (fst ` set m)"
proof -
  have "dom (map_of (jsmap_set m k v)) = insert k (dom (map_of m))"
    by (simp add: map_of_jsmap_set)
  then show ?thesis by (simp only: dom_map_of_conv_image_fst)
qed

lemma jsmap_set_length_le: "length (jsmap_set m k v) \<le> Suc (length m)"
  by (induction m) auto

lemma jsmap_set_length_ge: "length m \<le> length (jsmap_set m k v)"
  by (induction m) auto

lemma jsmap_set_distinct: "distinct (map fst m) \<Longrightarrow> distinct (map fst (jsmap_set m k v))"
  by (induction m) (auto simp: jsmap_set_keys)


section \<open>The bound on the name-to-value map\<close>

lemma nameValueLoop_length:
  "length m < MAX_NUM_INLINE_VALUES \<Longrightarrow> length (nameValueLoop m exprs) \<le> MAX_NUM_INLINE_VALUES"
proof (induction exprs arbitrary: m)
  case Nil
  then show ?case by simp
next
  case (Cons e es)
  let ?m' = "jsmap_set m (expr_name e) (expr_value e)"
  show ?case
  proof (cases "length ?m' \<ge> MAX_NUM_INLINE_VALUES")
    case True
    have "length ?m' \<le> Suc (length m)" by (rule jsmap_set_length_le)
    with Cons.prems True show ?thesis by (simp add: jsmap_size_def Let_def)
  next
    case False
    then have "length ?m' < MAX_NUM_INLINE_VALUES" by simp
    from Cons.IH [OF this] False show ?thesis by (simp add: jsmap_size_def Let_def)
  qed
qed

lemma nameValueLoop_distinct:
  "distinct (map fst m) \<Longrightarrow> distinct (map fst (nameValueLoop m exprs))"
  by (induction exprs arbitrary: m) (auto simp: Let_def jsmap_set_distinct)

lemma nameValueLoop_keys:
  "fst ` set (nameValueLoop m exprs) \<subseteq> fst ` set m \<union> expr_name ` set exprs"
proof (induction exprs arbitrary: m)
  case Nil
  then show ?case by simp
next
  case (Cons e es)
  have "fst ` set (nameValueLoop (jsmap_set m (expr_name e) (expr_value e)) es)
          \<subseteq> insert (expr_name e) (fst ` set m) \<union> expr_name ` set es"
    using Cons.IH [of "jsmap_set m (expr_name e) (expr_value e)"]
    by (simp only: jsmap_set_keys)
  then show ?case by (auto simp: Let_def jsmap_set_keys)
qed

lemma nameValueLoop_full:
  "length m \<ge> MAX_NUM_INLINE_VALUES \<Longrightarrow> exprs \<noteq> [] \<Longrightarrow>
     nameValueLoop m exprs = jsmap_set m (expr_name (hd exprs)) (expr_value (hd exprs))"
proof (cases exprs)
  case Nil
  assume "exprs \<noteq> []"
  with Nil show ?thesis by simp
next
  case (Cons e es)
  assume "length m \<ge> MAX_NUM_INLINE_VALUES"
  moreover have "length m \<le> length (jsmap_set m (expr_name e) (expr_value e))"
    by (rule jsmap_set_length_ge)
  ultimately show ?thesis using Cons by (simp add: jsmap_size_def Let_def)
qed

lemma nameValueLoop_append:
  "length m < MAX_NUM_INLINE_VALUES \<Longrightarrow>
   length (nameValueLoop m xs) \<ge> MAX_NUM_INLINE_VALUES \<Longrightarrow>
   nameValueLoop m (xs @ ys) = nameValueLoop m xs"
proof (induction xs arbitrary: m)
  case Nil
  then show ?case by simp
next
  case (Cons e es)
  let ?m' = "jsmap_set m (expr_name e) (expr_value e)"
  show ?case
  proof (cases "length ?m' \<ge> MAX_NUM_INLINE_VALUES")
    case True
    then show ?thesis by (simp add: jsmap_size_def Let_def)
  next
    case False
    then have lt: "length ?m' < MAX_NUM_INLINE_VALUES" by simp
    from Cons.prems(2) False have "length (nameValueLoop ?m' es) \<ge> MAX_NUM_INLINE_VALUES"
      by (simp add: jsmap_size_def Let_def)
    from Cons.IH [OF lt this] False show ?thesis by (simp add: jsmap_size_def Let_def)
  qed
qed


section \<open>The names on each line come from the name-to-value map\<close>

lemma jsmap_set_subset: "set (jsmap_set m k v) \<subseteq> insert (k, v) (set m)"
  by (induction m) (auto split: if_splits)

lemma namesOf_jsmap_set: "namesOf (jsmap_set m k v) \<subseteq> namesOf m \<union> set v"
  using jsmap_set_subset [of m k v] by (fastforce simp: namesOf_def)

lemma namesOf_get: "jsmap_get m k = Some names \<Longrightarrow> set names \<subseteq> namesOf m"
  by (auto simp: namesOf_def jsmap_get_def dest!: map_of_SomeD)

lemma addPositions_names:
  "namesOf (addPositions h rng name m ps) \<subseteq> insert name (namesOf m)"
proof (induction ps arbitrary: m)
  case Nil
  then show ?case by auto
next
  case (Cons p ps)
  let ?m1 = "if \<not> jsmap_has m (lineNumber p) then jsmap_set m (lineNumber p) [] else m"
  let ?m2 = "if containsPosition h rng p then
          (case jsmap_get ?m1 (lineNumber p) of
                Some names \<Rightarrow>
                  if name \<notin> set names
                  then jsmap_set ?m1 (lineNumber p) (names @ [name]) else ?m1
              | None \<Rightarrow> ?m1)
        else m"
  have m1: "namesOf ?m1 \<subseteq> namesOf m"
    using namesOf_jsmap_set [of m "lineNumber p" "[]"] by auto
  have m2: "namesOf ?m2 \<subseteq> insert name (namesOf m)"
  proof (cases "jsmap_get ?m1 (lineNumber p)")
    case None
    with m1 show ?thesis by auto
  next
    case (Some names)
    from namesOf_get [OF Some] m1 have "set names \<subseteq> namesOf m" by blast
    with m1 namesOf_jsmap_set [of ?m1 "lineNumber p" "names @ [name]"] Some
    show ?thesis by (auto simp del: jsmap_set.simps)
  qed
  have eq: "addPositions h rng name m (p # ps) = addPositions h rng name ?m2 ps"
    by (simp add: Let_def)
  show ?case unfolding eq using Cons.IH [of ?m2] m2 by blast
qed

lemma lineToNamesLoop_names:
  "namesOf (lineToNamesLoop h rng w m nvs) \<subseteq> namesOf m \<union> fst ` set nvs"
proof (induction nvs arbitrary: m)
  case Nil
  then show ?case by simp
next
  case (Cons nv nvs)
  obtain name v where nv: "nv = (name, v)" by (cases nv)
  let ?m' = "case jsmap_get w name of
          Some positions \<Rightarrow> addPositions h rng name m positions
        | None \<Rightarrow> m"
  have "namesOf ?m' \<subseteq> insert name (namesOf m)"
    using addPositions_names [of h rng name m] by (auto split: option.splits)
  with Cons.IH [of ?m'] show ?case by (auto simp: nv)
qed

lemma buildLineToNamesMap_names:
  "namesOf (buildLineToNamesMap h rng w nvm) \<subseteq> fst ` set nvm"
  using lineToNamesLoop_names [of h rng w "[]" nvm]
  by (simp add: buildLineToNamesMap_def namesOf_def)

lemma buildNameValueMap_length: "length (buildNameValueMap exprs) \<le> 100"
  using nameValueLoop_length [of "[]" exprs]
  by (simp add: buildNameValueMap_def MAX_NUM_INLINE_VALUES_def)

lemma jsmap_set_length_new:
  "k \<notin> fst ` set m \<Longrightarrow> length (jsmap_set m k v) = Suc (length m)"
  by (induction m) auto

lemma jsmap_set_keys_new:
  "k \<notin> fst ` set m \<Longrightarrow> map fst (jsmap_set m k v) = map fst m @ [k]"
  by (induction m) auto

lemma nameValueLoop_length_distinct:
  "distinct (map fst m @ map expr_name exprs) \<Longrightarrow> length m < MAX_NUM_INLINE_VALUES \<Longrightarrow>
     length (nameValueLoop m exprs) = min MAX_NUM_INLINE_VALUES (length m + length exprs)"
proof (induction exprs arbitrary: m)
  case Nil
  then show ?case by simp
next
  case (Cons e es)
  let ?m' = "jsmap_set m (expr_name e) (expr_value e)"
  from Cons.prems(1) have new: "expr_name e \<notin> fst ` set m" by auto
  have len: "length ?m' = Suc (length m)" by (rule jsmap_set_length_new [OF new])
  have keys: "map fst ?m' = map fst m @ [expr_name e]" by (rule jsmap_set_keys_new [OF new])
  show ?case
  proof (cases "length ?m' \<ge> MAX_NUM_INLINE_VALUES")
    case True
    with len Cons.prems(2) show ?thesis by (simp add: jsmap_size_def Let_def)
  next
    case False
    then have lt: "length ?m' < MAX_NUM_INLINE_VALUES" by simp
    from Cons.prems(1) have "distinct (map fst ?m' @ map expr_name es)"
      by (simp only: keys) auto
    from Cons.IH [OF this lt] False len show ?thesis by (simp add: jsmap_size_def Let_def)
  qed
qed


lemma manyExpressions_full: "100 \<le> jsmap_size (buildNameValueMap manyExpressions)"
proof -
  have "distinct (map expr_name manyExpressions)"
    by (simp add: manyExpressions_def distinct_map comp_def inj_on_def)
  then have "length (nameValueLoop [] manyExpressions) = min MAX_NUM_INLINE_VALUES (length manyExpressions)"
    using nameValueLoop_length_distinct [of "[]" manyExpressions]
    by (simp add: MAX_NUM_INLINE_VALUES_def)
  then show ?thesis
    by (simp add: buildNameValueMap_def jsmap_size_def manyExpressions_def MAX_NUM_INLINE_VALUES_def)
qed


section \<open>The inline value decoration of one line\<close>

text \<open>
  C9: for every line number and content text, \<open>createInlineValueDecoration\<close> returns a
  decoration whose \<open>contentText\<close> is the input when its length is at most 150
  (\<open>MAX_INLINE_DECORATOR_LENGTH\<close>) and otherwise the first 150 code units followed by
  \<open>...\<close>, of length exactly 153; its range is the given line, with start and end column
  both \<open>Constants.MAX_SAFE_SMALL_INTEGER\<close>.
\<close>

theorem createInlineValueDecoration_text_and_range:
  "contentText (after (renderOptions (createInlineValueDecoration h lnum ct)))
     = (if length ct \<le> 150 then ct else take 150 ct @ js ''...'')
   \<and> length (contentText (after (renderOptions (createInlineValueDecoration h lnum ct))))
     = (if length ct \<le> 150 then length ct else 153)
   \<and> decoration_range (createInlineValueDecoration h lnum ct)
     = \<lparr> startLineNumber = lnum, startColumn = MAX_SAFE_SMALL_INTEGER h,
         endLineNumber = lnum, endColumn = MAX_SAFE_SMALL_INTEGER h \<rparr>"
  by (simp add: createInlineValueDecoration_def MAX_INLINE_DECORATOR_LENGTH_def substr_def js_def)


section \<open>At most a hundred names per scope\<close>

text \<open>
  C8: for every list of expressions, the name-to-value map that
  \<open>createInlineValueDecorationsInsideRange\<close> builds has at most 100 entries
  (\<open>MAX_NUM_INLINE_VALUES\<close>), one per name; once the map has 100 entries the remaining
  expressions are ignored; and the names that get an inline value decoration are names
  of that map, so there are at most 100 of them per scope.
\<close>

theorem nameValueMap_at_most_100:
  "jsmap_size (buildNameValueMap exprs) \<le> 100
   \<and> distinct (map fst (buildNameValueMap exprs))
   \<and> (100 \<le> jsmap_size (buildNameValueMap exprs)
        \<longrightarrow> buildNameValueMap (exprs @ rest) = buildNameValueMap exprs)
   \<and> namesOf (buildLineToNamesMap h rng w (buildNameValueMap exprs))
        \<subseteq> fst ` set (buildNameValueMap exprs)
   \<and> card (namesOf (buildLineToNamesMap h rng w (buildNameValueMap exprs))) \<le> 100"
proof -
  have len: "length (buildNameValueMap exprs) \<le> 100" by (rule buildNameValueMap_length)
  have dist: "distinct (map fst (buildNameValueMap exprs))"
    by (simp add: buildNameValueMap_def nameValueLoop_distinct)
  have app: "100 \<le> jsmap_size (buildNameValueMap exprs)
        \<longrightarrow> buildNameValueMap (exprs @ rest) = buildNameValueMap exprs"
    using nameValueLoop_append [of "[]" exprs rest]
    by (simp add: buildNameValueMap_def MAX_NUM_INLINE_VALUES_def jsmap_size_def)
  have sub: "namesOf (buildLineToNamesMap h rng w (buildNameValueMap exprs))
        \<subseteq> fst ` set (buildNameValueMap exprs)"
    by (rule buildLineToNamesMap_names)
  have "card (fst ` set (buildNameValueMap exprs)) \<le> length (buildNameValueMap exprs)"
    by (metis card_length length_map set_map)
  with len have "card (fst ` set (buildNameValueMap exprs)) \<le> 100" by simp
  with card_mono [OF _ sub] have c: "card (namesOf (buildLineToNamesMap h rng w (buildNameValueMap exprs))) \<le> 100"
    by fastforce
  from len dist app sub c show ?thesis by (simp add: jsmap_size_def)
qed

text \<open>The theorem at a hundred distinct names followed by one more expression: the
  map is full and the late expression is ignored.\<close>

theorem nameValueMap_at_most_100_witness:
  "100 \<le> jsmap_size (buildNameValueMap manyExpressions)
   \<and> buildNameValueMap (manyExpressions @ [\<lparr> expr_name = js ''late'', expr_value = js ''1'' \<rparr>])
       = buildNameValueMap manyExpressions
   \<and> jsmap_size (buildNameValueMap (manyExpressions @ [\<lparr> expr_name = js ''late'', expr_value = js ''1'' \<rparr>])) \<le> 100"
  using nameValueMap_at_most_100 [of manyExpressions "[\<lparr> expr_name = js ''late'', expr_value = js ''1'' \<rparr>]"]
    manyExpressions_full
  by simp

section \<open>Lines longer than 500 code units are skipped\<close>

lemma wordOK_set: "wordOK Q m \<Longrightarrow> \<forall>p \<in> set ps. Q w p \<Longrightarrow> wordOK Q (jsmap_set m w ps)"
  using jsmap_set_subset [of m w ps] by (fastforce simp: wordOK_def)

lemma wordOK_get: "wordOK Q m \<Longrightarrow> jsmap_get m w = Some ps \<Longrightarrow> p \<in> set ps \<Longrightarrow> Q w p"
  by (force simp: wordOK_def jsmap_get_def dest!: map_of_SomeD)

lemma tokensLoop_inv:
  assumes "wordOK Q m"
    and "\<And>tok w. tok \<in> set toks \<Longrightarrow> standardTokenType tok = Other \<Longrightarrow>
           DEFAULT_WORD_REGEXP_exec h (substring c (startOffset tok) (endOffset tok)) = Some w \<Longrightarrow>
           Q w \<lparr> lineNumber = n, column = startOffset tok \<rparr>"
  shows "wordOK Q (tokensLoop h n c m toks)"
  using assms
proof (induction toks arbitrary: m)
  case Nil
  then show ?case by simp
next
  case (Cons tok toks)
  let ?str = "substring c (startOffset tok) (endOffset tok)"
  let ?p = "\<lparr> lineNumber = n, column = startOffset tok \<rparr>"
  define m' where "m' =
    (if standardTokenType tok = Other then
       (case DEFAULT_WORD_REGEXP_exec h ?str of
          Some word \<Rightarrow>
            (let m1 = (if \<not> jsmap_has m word then jsmap_set m word [] else m)
             in case jsmap_get m1 word of
                  Some positions \<Rightarrow> jsmap_set m1 word (positions @ [?p])
                | None \<Rightarrow> m1)
        | None \<Rightarrow> m)
     else m)"
  have eq: "tokensLoop h n c m (tok # toks) = tokensLoop h n c m' toks"
    by (simp add: m'_def Let_def)
  have ok: "wordOK Q m'"
  proof (cases "standardTokenType tok = Other")
    case False
    with Cons.prems(1) show ?thesis by (simp add: m'_def)
  next
    case other: True
    show ?thesis
    proof (cases "DEFAULT_WORD_REGEXP_exec h ?str")
      case None
      with Cons.prems(1) other show ?thesis by (simp add: m'_def)
    next
      case (Some word)
      let ?m1 = "if \<not> jsmap_has m word then jsmap_set m word [] else m"
      have q: "Q word ?p" using Cons.prems(2) [of tok word] other Some by simp
      have m1: "wordOK Q ?m1" using Cons.prems(1) wordOK_set [of Q m "[]" word] by simp
      show ?thesis
      proof (cases "jsmap_get ?m1 word")
        case None
        with m1 other Some show ?thesis by (simp add: m'_def Let_def)
      next
        case (Some positions)
        have "\<forall>p \<in> set (positions @ [?p]). Q word p"
          using wordOK_get [OF m1 Some] q by auto
        from wordOK_set [OF m1 this] other \<open>DEFAULT_WORD_REGEXP_exec h ?str = Some word\<close> Some
        show ?thesis by (simp add: m'_def Let_def)
      qed
    qed
  qed
  show ?case unfolding eq
    by (rule Cons.IH [OF ok]) (rule Cons.prems(2), auto)
qed

lemma linesLoop_inv:
  assumes "wordOK Q m"
    and "\<And>i tok w. i < length ls \<Longrightarrow> length (content (ls ! i)) \<le> MAX_TOKENIZATION_LINE_LEN \<Longrightarrow>
           tok \<in> set (tokens (ls ! i)) \<Longrightarrow> standardTokenType tok = Other \<Longrightarrow>
           DEFAULT_WORD_REGEXP_exec h
             (substring (content (ls ! i)) (startOffset tok) (endOffset tok)) = Some w \<Longrightarrow>
           Q w \<lparr> lineNumber = n + i, column = startOffset tok \<rparr>"
  shows "wordOK Q (linesLoop h n m ls)"
  using assms
proof (induction ls arbitrary: n m)
  case Nil
  then show ?case by simp
next
  case (Cons l ls)
  define m' where "m' =
    (if length (content l) > MAX_TOKENIZATION_LINE_LEN then m
     else tokensLoop h n (content l) m (tokens l))"
  have eq: "linesLoop h n m (l # ls) = linesLoop h (Suc n) m' ls"
    by (simp add: m'_def)
  have ok: "wordOK Q m'"
  proof (cases "length (content l) > MAX_TOKENIZATION_LINE_LEN")
    case True
    with Cons.prems(1) show ?thesis by (simp add: m'_def)
  next
    case False
    have "wordOK Q (tokensLoop h n (content l) m (tokens l))"
    proof (rule tokensLoop_inv [OF Cons.prems(1)])
      fix tok w
      assume "tok \<in> set (tokens l)" "standardTokenType tok = Other"
        "DEFAULT_WORD_REGEXP_exec h (substring (content l) (startOffset tok) (endOffset tok)) = Some w"
      with Cons.prems(2) [of 0 tok w] False
      show "Q w \<lparr> lineNumber = n, column = startOffset tok \<rparr>" by simp
    qed
    with False show ?thesis by (simp add: m'_def)
  qed
  show ?case unfolding eq
  proof (rule Cons.IH [OF ok])
    fix i tok w
    assume "i < length ls" "length (content (ls ! i)) \<le> MAX_TOKENIZATION_LINE_LEN"
      "tok \<in> set (tokens (ls ! i))" "standardTokenType tok = Other"
      "DEFAULT_WORD_REGEXP_exec h
         (substring (content (ls ! i)) (startOffset tok) (endOffset tok)) = Some w"
    with Cons.prems(2) [of "Suc i" tok w]
    show "Q w \<lparr> lineNumber = Suc n + i, column = startOffset tok \<rparr>" by simp
  qed
qed

lemma linesLoop_origin:
  "wordOK (wordPositionOrigin h model) (linesLoop h 1 [] (lines model))"
proof (rule linesLoop_inv)
  show "wordOK (wordPositionOrigin h model) []" by (simp add: wordOK_def)
next
  fix i tok w
  assume "i < length (lines model)"
    "length (content (lines model ! i)) \<le> MAX_TOKENIZATION_LINE_LEN"
    "tok \<in> set (tokens (lines model ! i))" "standardTokenType tok = Other"
    "DEFAULT_WORD_REGEXP_exec h
       (substring (content (lines model ! i)) (startOffset tok) (endOffset tok)) = Some w"
  then show "wordPositionOrigin h model w \<lparr> lineNumber = 1 + i, column = startOffset tok \<rparr>"
    by (auto simp: wordPositionOrigin_def shortLine_def MAX_TOKENIZATION_LINE_LEN_def)
qed

lemma getWordToPositionsMap_upToDate:
  "wordMapUpToDate h s \<Longrightarrow>
     fst (getWordToPositionsMap h s) =
       (case editor_model s of None \<Rightarrow> [] | Some model \<Rightarrow> linesLoop h 1 [] (lines model))"
  by (auto simp: wordMapUpToDate_def getWordToPositionsMap_def Let_def split: option.splits)

text \<open>The cache is up to date after a model-content change, and stays so when the map
  is computed.\<close>

lemma onDidChangeModelContent_upToDate: "wordMapUpToDate h (onDidChangeModelContent s)"
  by (simp add: wordMapUpToDate_def onDidChangeModelContent_def Let_def)

lemma getWordToPositionsMap_keeps_upToDate:
  "wordMapUpToDate h s \<Longrightarrow> wordMapUpToDate h (snd (getWordToPositionsMap h s))"
  by (auto simp: wordMapUpToDate_def getWordToPositionsMap_def Let_def split: option.splits)

lemma entryOK_set:
  "entryOK K N m \<Longrightarrow> K lnum \<Longrightarrow> \<forall>name \<in> set names. N lnum name \<Longrightarrow> entryOK K N (jsmap_set m lnum names)"
  using jsmap_set_subset [of m lnum names] by (fastforce simp: entryOK_def)

lemma entryOK_get: "entryOK K N m \<Longrightarrow> jsmap_get m lnum = Some names \<Longrightarrow> name \<in> set names \<Longrightarrow> N lnum name"
  by (force simp: entryOK_def jsmap_get_def dest!: map_of_SomeD)

lemma addPositions_inv:
  assumes "entryOK K N m"
    and "\<And>p. p \<in> set ps \<Longrightarrow> K (lineNumber p) \<and> N (lineNumber p) name"
  shows "entryOK K N (addPositions h rng name m ps)"
  using assms
proof (induction ps arbitrary: m)
  case Nil
  then show ?case by simp
next
  case (Cons p ps)
  let ?lnum = "lineNumber p"
  let ?m1 = "if \<not> jsmap_has m ?lnum then jsmap_set m ?lnum [] else m"
  define m' where "m' =
    (if containsPosition h rng p then
       (case jsmap_get ?m1 ?lnum of
          Some names \<Rightarrow> if name \<notin> set names then jsmap_set ?m1 ?lnum (names @ [name]) else ?m1
        | None \<Rightarrow> ?m1)
     else m)"
  have eq: "addPositions h rng name m (p # ps) = addPositions h rng name m' ps"
    by (simp add: m'_def Let_def)
  have kn: "K ?lnum" "N ?lnum name" using Cons.prems(2) [of p] by auto
  have m1: "entryOK K N ?m1" using Cons.prems(1) entryOK_set [of K N m ?lnum "[]"] kn by simp
  have ok: "entryOK K N m'"
  proof (cases "jsmap_get ?m1 ?lnum")
    case None
    with m1 Cons.prems(1) show ?thesis by (simp add: m'_def)
  next
    case (Some names)
    have "\<forall>nm \<in> set (names @ [name]). N ?lnum nm"
      using entryOK_get [OF m1 Some] kn by auto
    from entryOK_set [OF m1 kn(1) this] m1 Cons.prems(1) Some
    show ?thesis by (simp add: m'_def)
  qed
  show ?case unfolding eq
    by (rule Cons.IH [OF ok]) (rule Cons.prems(2), simp)
qed

lemma lineToNamesLoop_inv:
  assumes "entryOK K N m"
    and "\<And>name ps p. name \<in> fst ` set nvs \<Longrightarrow> jsmap_get w name = Some ps \<Longrightarrow> p \<in> set ps \<Longrightarrow>
           K (lineNumber p) \<and> N (lineNumber p) name"
  shows "entryOK K N (lineToNamesLoop h rng w m nvs)"
  using assms
proof (induction nvs arbitrary: m)
  case Nil
  then show ?case by simp
next
  case (Cons nv nvs)
  obtain name v where nv: "nv = (name, v)" by (cases nv)
  define m' where "m' =
    (case jsmap_get w name of Some positions \<Rightarrow> addPositions h rng name m positions | None \<Rightarrow> m)"
  have eq: "lineToNamesLoop h rng w m (nv # nvs) = lineToNamesLoop h rng w m' nvs"
    by (simp add: nv m'_def)
  have ok: "entryOK K N m'"
  proof (cases "jsmap_get w name")
    case None
    with Cons.prems(1) show ?thesis by (simp add: m'_def)
  next
    case (Some positions)
    have "entryOK K N (addPositions h rng name m positions)"
      by (rule addPositions_inv [OF Cons.prems(1)]) (rule Cons.prems(2) [OF _ Some], simp_all add: nv)
    with Some show ?thesis by (simp add: m'_def)
  qed
  show ?case unfolding eq
    by (rule Cons.IH [OF ok]) (rule Cons.prems(2), auto)
qed

lemma buildLineToNamesMap_origin:
  assumes "wordOK (wordPositionOrigin h model) w"
  shows "entryOK (shortLine model)
           (\<lambda>lnum name. \<exists>p. wordPositionOrigin h model name p \<and> lineNumber p = lnum)
           (buildLineToNamesMap h rng w nvm)"
  unfolding buildLineToNamesMap_def
proof (rule lineToNamesLoop_inv)
  show "entryOK (shortLine model)
          (\<lambda>lnum name. \<exists>p. wordPositionOrigin h model name p \<and> lineNumber p = lnum) []"
    by (simp add: entryOK_def)
next
  fix name ps p
  assume "jsmap_get w name = Some ps" "p \<in> set ps"
  with wordOK_get [OF assms] have o: "wordPositionOrigin h model name p" by blast
  then have "shortLine model (lineNumber p)" by (simp add: wordPositionOrigin_def)
  with o show "shortLine model (lineNumber p)
      \<and> (\<exists>p'. wordPositionOrigin h model name p' \<and> lineNumber p' = lineNumber p)"
    by blast
qed

lemma decorationsLoop_lines:
  "decorationsLoop h model nvm m = Inr ds \<Longrightarrow>
     map (\<lambda>d. startLineNumber (decoration_range d)) ds = map fst m"
proof (induction m arbitrary: ds)
  case Nil
  then show ?case by simp
next
  case (Cons entry m)
  obtain lnum names where e: "entry = (lnum, names)" by (cases entry)
  from Cons.prems obtain sortedNames rest where
    "decorationsLoop h model nvm m = Inr rest"
    "ds = createInlineValueDecoration h lnum (lineContentText nvm sortedNames) # rest"
    by (auto simp: e split: sum.splits)
  with Cons.IH [of rest] show ?case
    by (simp add: e createInlineValueDecoration_def)
qed

lemma exampleWordMap:
  "fst (getWordToPositionsMap exampleHost exampleState)
     = [(js ''x'', [\<lparr> lineNumber = 1, column = 0 \<rparr>])]"
  by (simp add: getWordToPositionsMap_def exampleState_def exampleModel_def exampleHost_def
      MAX_TOKENIZATION_LINE_LEN_def substring_def jsmap_has_def jsmap_get_def js_def Let_def)

text \<open>
  C10: \<open>getWordToPositionsMap\<close> skips every line whose content is longer than 500 code
  units (\<open>MAX_TOKENIZATION_LINE_LEN\<close>). Every position of the map is on a line of the
  model of at most 500 code units and is the start of a token of standard type \<open>Other\<close>
  on which the default word regular expression matches the word. Hence every line that
  gets names, and every inline value decoration, is on such a line, and every name on it
  has such a position there: a word that occurs only on longer lines gets no decoration.
\<close>

theorem getWordToPositionsMap_skips_long_lines:
  assumes "wordMapUpToDate h s"
  shows "(\<forall>entry \<in> set (fst (getWordToPositionsMap h s)). \<forall>p \<in> set (snd entry).
            \<exists>model. editor_model s = Some model \<and> wordPositionOrigin h model (fst entry) p)
       \<and> (\<forall>entry \<in> set (buildLineToNamesMap h rng (fst (getWordToPositionsMap h s)) nameValueMap).
            \<exists>model. editor_model s = Some model \<and> shortLine model (fst entry)
              \<and> (\<forall>name \<in> set (snd entry).
                    \<exists>p. wordPositionOrigin h model name p \<and> lineNumber p = fst entry))
       \<and> (\<forall>ds. fst (createInlineValueDecorationsInsideRange h expressions rng model' s) = Inr ds \<longrightarrow>
            (\<forall>d \<in> set ds. \<exists>model. editor_model s = Some model
                \<and> shortLine model (startLineNumber (decoration_range d))))"
proof (cases "editor_model s")
  case None
  with assms have e: "fst (getWordToPositionsMap h s) = []"
    by (simp add: getWordToPositionsMap_upToDate)
  have b: "buildLineToNamesMap h rng [] nvm = []" for nvm
  proof -
    have "lineToNamesLoop h rng [] m nvs = m" for m nvs
      by (induction nvs arbitrary: m) (auto simp: jsmap_get_def)
    then show ?thesis by (simp add: buildLineToNamesMap_def)
  qed
  have "fst (createInlineValueDecorationsInsideRange h expressions rng model' s) = Inr ds \<Longrightarrow> ds = []" for ds
    using e b by (simp add: createInlineValueDecorationsInsideRange_def Let_def split_beta)
  with e b show ?thesis by auto
next
  case (Some model)
  with assms have e: "fst (getWordToPositionsMap h s) = linesLoop h 1 [] (lines model)"
    by (simp add: getWordToPositionsMap_upToDate)
  have w: "wordOK (wordPositionOrigin h model) (fst (getWordToPositionsMap h s))"
    unfolding e by (rule linesLoop_origin)
  have l: "entryOK (shortLine model)
           (\<lambda>lnum name. \<exists>p. wordPositionOrigin h model name p \<and> lineNumber p = lnum)
           (buildLineToNamesMap h rng (fst (getWordToPositionsMap h s)) nvm)" for nvm
    by (rule buildLineToNamesMap_origin [OF w])
  have d: "\<forall>d \<in> set ds. shortLine model (startLineNumber (decoration_range d))"
    if "fst (createInlineValueDecorationsInsideRange h expressions rng model' s) = Inr ds" for ds
  proof -
    let ?m = "buildLineToNamesMap h rng (fst (getWordToPositionsMap h s)) (buildNameValueMap expressions)"
    from that have "decorationsLoop h model' (buildNameValueMap expressions) ?m = Inr ds"
      by (simp add: createInlineValueDecorationsInsideRange_def Let_def split_beta)
    then have "map (\<lambda>d. startLineNumber (decoration_range d)) ds = map fst ?m"
      by (rule decorationsLoop_lines)
    then have "(\<lambda>d. startLineNumber (decoration_range d)) ` set ds = fst ` set ?m"
      by (metis set_map)
    moreover have "\<forall>lnum \<in> fst ` set ?m. shortLine model lnum"
      using l [of "buildNameValueMap expressions"] by (auto simp: entryOK_def)
    ultimately show ?thesis by blast
  qed
  from w have 1: "\<forall>entry \<in> set (fst (getWordToPositionsMap h s)). \<forall>p \<in> set (snd entry).
            \<exists>model. editor_model s = Some model \<and> wordPositionOrigin h model (fst entry) p"
    using Some by (simp add: wordOK_def)
  from l [of nameValueMap] have 2: "\<forall>entry \<in> set (buildLineToNamesMap h rng (fst (getWordToPositionsMap h s)) nameValueMap).
            \<exists>model. editor_model s = Some model \<and> shortLine model (fst entry)
              \<and> (\<forall>name \<in> set (snd entry).
                    \<exists>p. wordPositionOrigin h model name p \<and> lineNumber p = fst entry)"
    using Some by (simp add: entryOK_def)
  from d have 3: "\<forall>ds. fst (createInlineValueDecorationsInsideRange h expressions rng model' s) = Inr ds \<longrightarrow>
            (\<forall>d \<in> set ds. \<exists>model. editor_model s = Some model
                \<and> shortLine model (startLineNumber (decoration_range d)))"
    using Some by simp
  from 1 2 3 show ?thesis by blast
qed

text \<open>The theorem at the model of two lines: the word of the first line is in the map,
  with its position; the second line has 501 code units and contributes nothing.\<close>

theorem getWordToPositionsMap_skips_long_lines_witness:
  "wordMapUpToDate exampleHost exampleState
   \<and> length (content (lines exampleModel ! 1)) = 501
   \<and> fst (getWordToPositionsMap exampleHost exampleState)
       = [(js ''x'', [\<lparr> lineNumber = 1, column = 0 \<rparr>])]
   \<and> wordPositionOrigin exampleHost exampleModel (js ''x'') \<lparr> lineNumber = 1, column = 0 \<rparr>
   \<and> shortLine exampleModel 1 \<and> \<not> shortLine exampleModel 2"
proof -
  have u: "wordMapUpToDate exampleHost exampleState"
    by (simp add: wordMapUpToDate_def exampleState_def)
  have m: "editor_model exampleState = Some exampleModel"
    by (simp add: exampleState_def)
  from getWordToPositionsMap_skips_long_lines [OF u]
  have "\<forall>entry \<in> set (fst (getWordToPositionsMap exampleHost exampleState)). \<forall>p \<in> set (snd entry).
            \<exists>model. editor_model exampleState = Some model
              \<and> wordPositionOrigin exampleHost model (fst entry) p"
    by blast
  then have o: "wordPositionOrigin exampleHost exampleModel (js ''x'') \<lparr> lineNumber = 1, column = 0 \<rparr>"
    by (simp add: exampleWordMap m)
  then have s1: "shortLine exampleModel 1" by (simp add: wordPositionOrigin_def)
  have s2: "\<not> shortLine exampleModel 2" "length (content (lines exampleModel ! 1)) = 501"
    by (simp_all add: shortLine_def exampleModel_def)
  from u o s1 s2 exampleWordMap show ?thesis by blast
qed


section \<open>The hover\<close>

text \<open>
  C4: \<open>showHover\<close> shows the debug hover widget only when a stack frame is focused, the
  editor has a model, and the URI of the focused frame's source is the URI of the model;
  when one of these fails it returns and nothing has changed.
\<close>

theorem showHover_only_when:
  "((\<exists>sf model. focusedStackFrame s = Some sf \<and> editor_model s = Some model
        \<and> source_uri (source (frames s sf)) = model_uri model)
      \<longrightarrow> showHover rng focus s = s\<lparr> hostCalls := hostCalls s @ [HoverWidget_showAt rng focus] \<rparr>)
   \<and> (\<not> (\<exists>sf model. focusedStackFrame s = Some sf \<and> editor_model s = Some model
          \<and> source_uri (source (frames s sf)) = model_uri model)
      \<longrightarrow> showHover rng focus s = s)"
  by (auto simp: showHover_def split: option.splits)

text \<open>The theorem at the concrete editor, with the focused frame and without it.\<close>

theorem showHover_only_when_witness:
  "showHover \<lparr> startLineNumber = 1, startColumn = 1, endLineNumber = 1, endColumn = 2 \<rparr> False exampleState
     = exampleState\<lparr> hostCalls :=
         [HoverWidget_showAt \<lparr> startLineNumber = 1, startColumn = 1, endLineNumber = 1, endColumn = 2 \<rparr> False] \<rparr>
   \<and> showHover \<lparr> startLineNumber = 1, startColumn = 1, endLineNumber = 1, endColumn = 2 \<rparr> False
        (exampleState\<lparr> focusedStackFrame := None \<rparr>)
     = exampleState\<lparr> focusedStackFrame := None \<rparr>"
proof -
  let ?r = "\<lparr> startLineNumber = 1, startColumn = 1, endLineNumber = 1, endColumn = 2 \<rparr>"
  have a: "\<exists>sf model. focusedStackFrame exampleState = Some sf \<and> editor_model exampleState = Some model
        \<and> source_uri (source (frames exampleState sf)) = model_uri model"
    by (simp add: exampleState_def exampleFrame_def exampleModel_def)
  have b: "\<not> (\<exists>sf model. focusedStackFrame (exampleState\<lparr> focusedStackFrame := None \<rparr>) = Some sf
        \<and> editor_model (exampleState\<lparr> focusedStackFrame := None \<rparr>) = Some model
        \<and> source_uri (source (frames (exampleState\<lparr> focusedStackFrame := None \<rparr>) sf)) = model_uri model)"
    by simp
  have c: "hostCalls exampleState = []" by (simp add: exampleState_def)
  from showHover_only_when [of exampleState ?r False] a
  have "showHover ?r False exampleState = exampleState\<lparr> hostCalls := hostCalls exampleState @ [HoverWidget_showAt ?r False] \<rparr>"
    by blast
  moreover from showHover_only_when [of "exampleState\<lparr> focusedStackFrame := None \<rparr>" ?r False] b
  have "showHover ?r False (exampleState\<lparr> focusedStackFrame := None \<rparr>) = exampleState\<lparr> focusedStackFrame := None \<rparr>"
    by blast
  ultimately show ?thesis by (simp add: c)
qed

text \<open>
  C6: a mouse move while the debug service is not in state \<open>Stopped\<close> changes nothing:
  no hover is scheduled, hidden or moved, and every field and every pending timer is as
  before.
\<close>

theorem onEditorMouseMove_not_stopped:
  "debugService_state s \<noteq> Stopped \<Longrightarrow> onEditorMouseMove h mouseEvent s = s"
  by (simp add: onEditorMouseMove_def)

text \<open>The theorem at the concrete editor while the session is running; the same
  mouse move while it is stopped changes the hover range.\<close>

theorem onEditorMouseMove_not_stopped_witness:
  "debugService_state runningState \<noteq> Stopped
   \<and> onEditorMouseMove exampleHost exampleMouseEvent runningState = runningState
   \<and> hoverRange (onEditorMouseMove exampleHost exampleMouseEvent exampleState)
       \<noteq> hoverRange exampleState"
proof -
  have r: "debugService_state runningState \<noteq> Stopped"
    by (simp add: runningState_def)
  have "hoverRange (onEditorMouseMove exampleHost exampleMouseEvent exampleState)
      \<noteq> hoverRange exampleState"
    by (simp add: onEditorMouseMove_def exampleState_def exampleMouseEvent_def exampleHost_def
        Let_def)
  with r onEditorMouseMove_not_stopped [OF r, of exampleHost exampleMouseEvent]
  show ?thesis by simp
qed

text \<open>
  C2: on a scroll change the hover pass is to run, as it does on a key press. The scroll
  listener gives back \<open>hideHoverWidget\<close> without calling it: at the concrete editor, with
  a visible hover widget and pending show timers, the scroll change leaves the state as
  it is, where \<open>hideHoverWidget\<close> schedules the hide pass and cancels the two show timers.
\<close>

theorem onDidScrollChange_does_not_hide:
  "snd (onDidScrollChange exampleState) = exampleState
   \<and> hoverWidget_isVisible exampleState
   \<and> hideHoverScheduler (snd (onDidScrollChange exampleState)) = None
   \<and> showHoverScheduler (snd (onDidScrollChange exampleState)) = Some 300
   \<and> provideNonDebugHoverScheduler (snd (onDidScrollChange exampleState)) = Some 300
   \<and> hideHoverScheduler (hideHoverWidget exampleState) = Some 600
   \<and> showHoverScheduler (hideHoverWidget exampleState) = None
   \<and> provideNonDebugHoverScheduler (hideHoverWidget exampleState) = None
   \<and> onKeyDown exampleHost (KeyCode_other 0) exampleState = hideHoverWidget exampleState"
  by (simp add: onDidScrollChange_def hideHoverWidget_def onKeyDown_def exampleState_def exampleHost_def
      isScheduled_def schedule_def cancel_def HOVER_DELAY_def Let_def)


section \<open>The exception widget\<close>

lemma closeExceptionWidget_closed: "exceptionWidget (closeExceptionWidget s) = None"
  by (simp add: closeExceptionWidget_def split: option.splits)

lemma closeExceptionWidget_calls:
  "newHostCalls s (closeExceptionWidget s) = [] \<or> newHostCalls s (closeExceptionWidget s) = [ExceptionWidget_dispose]"
  by (simp add: closeExceptionWidget_def newHostCalls_def split: option.splits)

lemma showExceptionWidget_calls:
  "ExceptionWidget_show \<lparr> lineNumber = l, column = c \<rparr> \<in> set (newHostCalls s (showExceptionWidget info sess l c s))"
  by (simp add: showExceptionWidget_def newHostCalls_def Let_def split: option.splits)

lemma firstAvailableFrame_Nil: "firstAvailableFrame s [] = None"
  by (simp add: firstAvailableFrame_def)

lemma toggle_show:
  "showConditions s \<Longrightarrow>
     \<exists>f info. focusedStackFrame s = Some f \<and> exceptionInfo (thread (frames s f)) = Some info
       \<and> toggleExceptionWidget s =
           showExceptionWidget info (focusedSession s)
             (startLineNumber (frame_range (frames s f)))
             (startColumn (frame_range (frames s f))) s"
  by (auto simp: showConditions_def toggleExceptionWidget_def first_def firstAvailableFrame_def
      Let_def split: option.splits)

lemma toggle_close:
  "closeCases s \<Longrightarrow> toggleExceptionWidget s = closeExceptionWidget s"
  by (auto simp: closeCases_def toggleExceptionWidget_def first_def firstAvailableFrame_def
      Let_def split: option.splits)

lemma toggle_keep:
  "\<not> showConditions s \<Longrightarrow> \<not> closeCases s \<Longrightarrow> toggleExceptionWidget s = s"
  by (auto simp: showConditions_def closeCases_def toggleExceptionWidget_def first_def
      firstAvailableFrame_def Let_def split: option.splits)

lemma show_not_close: "showConditions s \<Longrightarrow> \<not> closeCases s"
  by (auto simp: showConditions_def closeCases_def firstAvailableFrame_Nil split: option.splits)

lemma exceptionState_show: "showConditions exceptionState"
  by (simp add: showConditions_def firstAvailableFrame_def exceptionState_def exceptionFrame_def
      exampleState_def exampleFrame_def exampleModel_def js_def)

lemma exampleState_not_close: "\<not> closeCases exampleState \<and> \<not> showConditions exampleState"
  by (simp add: showConditions_def closeCases_def firstAvailableFrame_def
      exampleState_def exampleFrame_def exampleModel_def js_def)

lemma noModel_close: "closeCases (exampleState\<lparr> editor_model := None \<rparr>)"
  by (simp add: closeCases_def)

text \<open>
  C3, as the code has it: \<open>toggleExceptionWidget\<close> shows the exception widget exactly
  when the editor has a model, a stack frame is focused, the focused frame is the first
  frame of its thread's call stack whose source is available and not presentation-hinted
  \<open>deemphasize\<close>, the URI of that frame's source is the URI of the model, and there is
  exception info and a start line and column. It closes an existing widget when there
  is no model, no focused frame, an empty call stack, a focused frame that is not the
  first available frame, or a URI mismatch with an open widget. In the remaining case
  (the URIs agree and the exception info, the start line or the start column is
  missing) it changes nothing, and an existing widget stays open.
\<close>

theorem toggleExceptionWidget_cases:
  "(showConditions s \<longrightarrow>
      (\<exists>f info. focusedStackFrame s = Some f \<and> exceptionInfo (thread (frames s f)) = Some info
         \<and> toggleExceptionWidget s =
             showExceptionWidget info (focusedSession s)
               (startLineNumber (frame_range (frames s f)))
               (startColumn (frame_range (frames s f))) s))
   \<and> ((\<exists>p. ExceptionWidget_show p \<in> set (newHostCalls s (toggleExceptionWidget s)))
        \<longleftrightarrow> showConditions s)
   \<and> (closeCases s \<longrightarrow>
        toggleExceptionWidget s = closeExceptionWidget s
        \<and> exceptionWidget (toggleExceptionWidget s) = None)
   \<and> (\<not> showConditions s \<and> \<not> closeCases s \<longrightarrow> toggleExceptionWidget s = s)"
proof -
  have shown: "\<exists>p. ExceptionWidget_show p \<in> set (newHostCalls s (toggleExceptionWidget s))"
    if "showConditions s"
    using toggle_show [OF that] showExceptionWidget_calls by metis
  have notshown: "\<not> (\<exists>p. ExceptionWidget_show p \<in> set (newHostCalls s (toggleExceptionWidget s)))"
    if n: "\<not> showConditions s"
  proof (cases "closeCases s")
    case True
    with toggle_close closeExceptionWidget_calls [of s] show ?thesis by auto
  next
    case False
    with n toggle_keep show ?thesis by (simp add: newHostCalls_def)
  qed
  from shown notshown toggle_show toggle_close toggle_keep closeExceptionWidget_closed
  show ?thesis by metis
qed

text \<open>The theorem at three editors: one where the widget is shown, one without a model
  where it is closed, and the concrete editor where nothing changes.\<close>

theorem toggleExceptionWidget_cases_witness:
  "showConditions exceptionState
   \<and> exceptionWidget (toggleExceptionWidget exceptionState)
       = Some \<lparr> widget_exceptionInfo = \<lparr> exception_id = None, description = Some (js ''boom'') \<rparr>,
                widget_debugSession = None \<rparr>
   \<and> closeCases (exampleState\<lparr> editor_model := None \<rparr>)
   \<and> exceptionWidget (toggleExceptionWidget (exampleState\<lparr> editor_model := None \<rparr>)) = None
   \<and> \<not> showConditions exampleState \<and> \<not> closeCases exampleState
   \<and> toggleExceptionWidget exampleState = exampleState"
proof -
  from toggleExceptionWidget_cases [of exceptionState] exceptionState_show
  obtain f info where "focusedStackFrame exceptionState = Some f"
    "exceptionInfo (thread (frames exceptionState f)) = Some info"
    "toggleExceptionWidget exceptionState =
       showExceptionWidget info (focusedSession exceptionState)
         (startLineNumber (frame_range (frames exceptionState f)))
         (startColumn (frame_range (frames exceptionState f))) exceptionState"
    by blast
  then have a: "exceptionWidget (toggleExceptionWidget exceptionState)
       = Some \<lparr> widget_exceptionInfo = \<lparr> exception_id = None, description = Some (js ''boom'') \<rparr>,
                widget_debugSession = None \<rparr>"
    by (auto simp: showExceptionWidget_def exceptionState_def exceptionFrame_def exampleState_def Let_def)
  from toggleExceptionWidget_cases [of "exampleState\<lparr> editor_model := None \<rparr>"] noModel_close
  have b: "exceptionWidget (toggleExceptionWidget (exampleState\<lparr> editor_model := None \<rparr>)) = None"
    by blast
  from toggleExceptionWidget_cases [of exampleState] exampleState_not_close
  have c: "toggleExceptionWidget exampleState = exampleState" by blast
  from a b c exceptionState_show noModel_close exampleState_not_close show ?thesis by blast
qed

text \<open>It is not in every other case that an existing widget is closed: at the
  concrete editor the conditions for showing fail (there is no exception info), a widget
  is open, and it is still open afterwards.\<close>

theorem toggleExceptionWidget_counterexample:
  "\<not> showConditions exampleState
   \<and> exceptionWidget exampleState = Some exampleWidget
   \<and> exceptionWidget (toggleExceptionWidget exampleState) = Some exampleWidget"
  by (simp add: showConditions_def toggleExceptionWidget_def first_def firstAvailableFrame_def
      exampleState_def exampleFrame_def exampleModel_def js_def)


section \<open>Content changes are coalesced\<close>

lemma getWordToPositionsMap_timer:
  "updateInlineValuesScheduler (snd (getWordToPositionsMap h s)) = updateInlineValuesScheduler s"
  by (simp add: getWordToPositionsMap_def Let_def split: option.splits)

lemma createInlineValueDecorationsInsideRange_timer:
  "updateInlineValuesScheduler (snd (createInlineValueDecorationsInsideRange h es rng model s))
     = updateInlineValuesScheduler s"
  by (simp add: createInlineValueDecorationsInsideRange_def Let_def split_beta
      getWordToPositionsMap_timer)

lemma decorationsPerScope_timer:
  "updateInlineValuesScheduler (snd (decorationsPerScope h sf model scopes s))
     = updateInlineValuesScheduler s"
  by (induction scopes arbitrary: s)
    (simp_all add: Let_def split_beta createInlineValueDecorationsInsideRange_timer)

lemma updateInlineValueDecorations_timer:
  "updateInlineValuesScheduler (snd (updateInlineValueDecorations h sf s))
     = updateInlineValuesScheduler s"
  by (simp add: updateInlineValueDecorations_def scheduleRemoveInlineValues_def Let_def split_beta
      decorationsPerScope_timer split: option.splits sum.splits)

lemma contentChanges_state:
  "ms \<noteq> [] \<Longrightarrow>
     contentChanges ms s =
       s\<lparr> editor_model := Some (last ms), wordToLineNumbersMap := None,
          updateInlineValuesScheduler := Some 200 \<rparr>"
proof (induction ms arbitrary: s)
  case Nil
  then show ?case by simp
next
  case (Cons m ms)
  show ?case
  proof (cases "ms = []")
    case True
    then show ?thesis by (simp add: onDidChangeModelContent_def schedule_def Let_def)
  next
    case False
    from Cons.IH [OF False] False show ?thesis
      by (simp add: onDidChangeModelContent_def schedule_def Let_def)
  qed
qed

lemma example_pass:
  "hostCalls (snd (updateInlineValueDecorations exampleHost (Some 0)
      (exampleState\<lparr> editor_model := Some exampleModel, wordToLineNumbersMap := None,
                     updateInlineValuesScheduler := None \<rparr>)))
   = [Editor_setDecorations [createInlineValueDecoration exampleHost 1 (js ''x = 1'')]]"
  by (simp add: updateInlineValueDecorations_def exampleState_def exampleFrame_def exampleModel_def
      exampleHost_def cancel_def createInlineValueDecorationsInsideRange_def
      getWordToPositionsMap_def buildNameValueMap_def buildLineToNamesMap_def
      MAX_TOKENIZATION_LINE_LEN_def MAX_NUM_INLINE_VALUES_def substring_def jsmap_has_def
      jsmap_get_def jsmap_size_def sortNames_def lineContentText_def js_def Let_def)

text \<open>
  C1: a model-content change does not recompute the inline value decorations; it clears
  the word cache and schedules the update pass on the 200 ms scheduler. After any burst
  of content changes with no timer firing in between, the state is the one before the
  burst with the last content, the cleared cache and one pending 200 ms timer. When the
  timer fires, one update pass runs on that state, the scheduler is no longer scheduled,
  and a further time-out runs nothing.
\<close>

theorem contentChanges_coalesce:
  assumes "ms \<noteq> []"
  shows "onDidChangeModelContent s
           = s\<lparr> wordToLineNumbersMap := None, updateInlineValuesScheduler := Some 200 \<rparr>
       \<and> contentChanges ms s
           = s\<lparr> editor_model := Some (last ms), wordToLineNumbersMap := None,
                updateInlineValuesScheduler := Some 200 \<rparr>
       \<and> onTimeout h UpdateInlineValuesScheduler (contentChanges ms s)
           = snd (updateInlineValueDecorations h (focusedStackFrame s)
                    (s\<lparr> editor_model := Some (last ms), wordToLineNumbersMap := None,
                        updateInlineValuesScheduler := None \<rparr>))
       \<and> updateInlineValuesScheduler (onTimeout h UpdateInlineValuesScheduler (contentChanges ms s))
           = None
       \<and> onTimeout h UpdateInlineValuesScheduler
           (onTimeout h UpdateInlineValuesScheduler (contentChanges ms s))
           = onTimeout h UpdateInlineValuesScheduler (contentChanges ms s)"
proof -
  let ?s' = "s\<lparr> editor_model := Some (last ms), wordToLineNumbersMap := None,
                updateInlineValuesScheduler := None \<rparr>"
  have a: "onDidChangeModelContent s
           = s\<lparr> wordToLineNumbersMap := None, updateInlineValuesScheduler := Some 200 \<rparr>"
    by (simp add: onDidChangeModelContent_def schedule_def Let_def)
  note b = contentChanges_state [OF assms, of s]
  have c: "onTimeout h UpdateInlineValuesScheduler (contentChanges ms s)
           = snd (updateInlineValueDecorations h (focusedStackFrame s) ?s')"
    by (simp add: b onTimeout_def pendingTimer_def clearTimer_def isScheduled_def runner_def)
  have d: "updateInlineValuesScheduler (onTimeout h UpdateInlineValuesScheduler (contentChanges ms s))
           = None"
    by (simp add: c updateInlineValueDecorations_timer)
  have e: "onTimeout h UpdateInlineValuesScheduler
           (onTimeout h UpdateInlineValuesScheduler (contentChanges ms s))
           = onTimeout h UpdateInlineValuesScheduler (contentChanges ms s)"
    using d by (simp add: onTimeout_def [of h _ "onTimeout h UpdateInlineValuesScheduler (contentChanges ms s)"]
        pendingTimer_def isScheduled_def)
  from a b c d e show ?thesis by blast
qed

text \<open>The theorem at a burst of three content changes on the concrete editor: one
  pending timer, and one pass that sets the decoration of line 1.\<close>

theorem contentChanges_coalesce_witness:
  "contentChanges [exampleModel\<lparr> lines := [] \<rparr>, exampleModel\<lparr> lines := [] \<rparr>, exampleModel] exampleState
     = exampleState\<lparr> updateInlineValuesScheduler := Some 200 \<rparr>
   \<and> hostCalls (onTimeout exampleHost UpdateInlineValuesScheduler
        (contentChanges [exampleModel\<lparr> lines := [] \<rparr>, exampleModel\<lparr> lines := [] \<rparr>, exampleModel]
           exampleState))
     = [Editor_setDecorations [createInlineValueDecoration exampleHost 1 (js ''x = 1'')]]
   \<and> updateInlineValuesScheduler (onTimeout exampleHost UpdateInlineValuesScheduler
        (contentChanges [exampleModel\<lparr> lines := [] \<rparr>, exampleModel\<lparr> lines := [] \<rparr>, exampleModel]
           exampleState))
     = None"
proof -
  let ?ms = "[exampleModel\<lparr> lines := [] \<rparr>, exampleModel\<lparr> lines := [] \<rparr>, exampleModel]"
  have ne: "?ms \<noteq> []" by simp
  have f: "focusedStackFrame exampleState = Some 0" by (simp add: exampleState_def)
  have same: "exampleState\<lparr> editor_model := Some exampleModel, wordToLineNumbersMap := None,
                updateInlineValuesScheduler := Some 200 \<rparr>
              = exampleState\<lparr> updateInlineValuesScheduler := Some 200 \<rparr>"
    by (simp add: exampleState_def)
  have l: "last ?ms = exampleModel" by simp
  note t = contentChanges_coalesce [OF ne, of exampleState exampleHost]
  from t have b: "contentChanges ?ms exampleState
      = exampleState\<lparr> editor_model := Some (last ?ms), wordToLineNumbersMap := None,
                updateInlineValuesScheduler := Some 200 \<rparr>"
    by blast
  from t have c: "onTimeout exampleHost UpdateInlineValuesScheduler (contentChanges ?ms exampleState)
      = snd (updateInlineValueDecorations exampleHost (focusedStackFrame exampleState)
               (exampleState\<lparr> editor_model := Some (last ?ms), wordToLineNumbersMap := None,
                   updateInlineValuesScheduler := None \<rparr>))"
    by blast
  from t have d: "updateInlineValuesScheduler
      (onTimeout exampleHost UpdateInlineValuesScheduler (contentChanges ?ms exampleState)) = None"
    by blast
  have b': "contentChanges ?ms exampleState = exampleState\<lparr> updateInlineValuesScheduler := Some 200 \<rparr>"
    by (simp only: b l same)
  have c': "hostCalls (onTimeout exampleHost UpdateInlineValuesScheduler (contentChanges ?ms exampleState))
      = [Editor_setDecorations [createInlineValueDecoration exampleHost 1 (js ''x = 1'')]]"
    by (simp only: c l f example_pass)
  from b' c' d show ?thesis by blast
qed

section \<open>Cancelling is cancelling a timer\<close>

lemmas regular_defs =
  regular_def callsExtended_def newHostCalls_def tokensNone_def allTimersKept_def
  timerKept_def pendingTimer_def timeoutOf_def schedule_def cancel_def isScheduled_def
  HOVER_DELAY_def

lemma allTimersKept_timerKept: "allTimersKept s s' \<Longrightarrow> timerKept sch s s'"
  by (cases sch) (simp_all add: allTimersKept_def)

lemma tokensNone_append: "tokensNone (xs @ ys) \<longleftrightarrow> tokensNone xs \<and> tokensNone ys"
  by (auto simp: tokensNone_def)

lemma callsExtended_trans:
  assumes "callsExtended s s'" and "callsExtended s' s''"
  shows "callsExtended s s''"
proof -
  from assms obtain cs cs' where a: "hostCalls s' = hostCalls s @ cs" "tokensNone cs"
    and b: "hostCalls s'' = hostCalls s' @ cs'" "tokensNone cs'"
    by (auto simp: callsExtended_def)
  then have "hostCalls s'' = hostCalls s @ (cs @ cs')" by simp
  moreover from a b have "tokensNone (cs @ cs')" by (simp add: tokensNone_append)
  ultimately show ?thesis by (simp add: callsExtended_def newHostCalls_def)
qed

lemma timerKept_trans: "timerKept sch s s' \<Longrightarrow> timerKept sch s' s'' \<Longrightarrow> timerKept sch s s''"
  by (auto simp: timerKept_def)

lemma allTimersKept_trans: "allTimersKept s s' \<Longrightarrow> allTimersKept s' s'' \<Longrightarrow> allTimersKept s s''"
  by (simp add: allTimersKept_def) (blast intro: timerKept_trans)

lemma regular_trans: "regular s s' \<Longrightarrow> regular s' s'' \<Longrightarrow> regular s s''"
  by (auto simp: regular_def intro: callsExtended_trans allTimersKept_trans)

lemma regular_refl: "regular s s"
  by (simp add: regular_defs)

text \<open>Operations that are one step.\<close>

lemma regular_showHover: "regular s (showHover rng focus s)"
  by (simp add: showHover_def regular_defs split: option.splits)

lemma regular_hideHoverWidget: "regular s (hideHoverWidget s)"
  by (simp add: hideHoverWidget_def regular_defs Let_def)

lemma regular_closeExceptionWidget: "regular s (closeExceptionWidget s)"
  by (simp add: closeExceptionWidget_def regular_defs split: option.splits)

lemma regular_showExceptionWidget: "regular s (showExceptionWidget info sess l c s)"
  by (simp add: showExceptionWidget_def regular_defs Let_def split: option.splits)

lemma regular_applyHoverConfiguration: "regular s (applyHoverConfiguration model sf s)"
  by (simp add: applyHoverConfiguration_def regular_defs Let_def split: option.splits)

lemma regular_updateConfigurationWidgetVisibility:
  "regular s (updateConfigurationWidgetVisibility s)"
  by (simp add: updateConfigurationWidgetVisibility_def regular_defs Let_def split: option.splits)

lemma regular_addLaunchConfiguration: "regular s (addLaunchConfiguration h s)"
  by (simp add: addLaunchConfiguration_def regular_defs Let_def split: option.splits)

lemma regular_onMouseUp: "regular s (onMouseUp s)"
  by (simp add: onMouseUp_def regular_defs)

lemma regular_onDidChangeModelContent: "regular s (onDidChangeModelContent s)"
  by (simp add: onDidChangeModelContent_def regular_defs Let_def)

lemma regular_onDidScrollChange: "regular s (snd (onDidScrollChange s))"
  by (simp add: onDidScrollChange_def regular_refl)

lemma regular_dispose: "regular s (dispose s)"
  by (simp add: dispose_def regular_defs Let_def split: option.splits)

lemma regular_scheduleRemoveInlineValues: "regular s (scheduleRemoveInlineValues s)"
  by (simp add: scheduleRemoveInlineValues_def regular_defs)

lemma regular_getWordToPositionsMap: "regular s (snd (getWordToPositionsMap h s))"
  by (simp add: getWordToPositionsMap_def regular_defs Let_def split: option.splits)

lemma regular_onEditorMouseDown: "regular s (onEditorMouseDown h e s)"
  by (simp add: onEditorMouseDown_def hideHoverWidget_def regular_defs Let_def)

lemma regular_onEditorMouseMove: "regular s (onEditorMouseMove h e s)"
  by (simp add: onEditorMouseMove_def hideHoverWidget_def regular_defs Let_def split: option.splits)

lemma regular_onKeyDown: "regular s (onKeyDown h k s)"
  by (simp add: onKeyDown_def hideHoverWidget_def regular_defs Let_def)

lemma regular_onMouseLeave: "regular s (onMouseLeave e s)"
  by (simp add: onMouseLeave_def hideHoverWidget_def regular_defs Let_def split: option.splits)

lemma toggleExceptionWidget_shape:
  "toggleExceptionWidget s = s \<or> toggleExceptionWidget s = closeExceptionWidget s
   \<or> (\<exists>info l c. toggleExceptionWidget s = showExceptionWidget info (focusedSession s) l c s)"
  using toggle_show [of s] toggle_close [of s] toggle_keep [of s] by blast

lemma regular_toggleExceptionWidget: "regular s (toggleExceptionWidget s)"
  using toggleExceptionWidget_shape [of s]
  by (auto simp: regular_refl regular_closeExceptionWidget regular_showExceptionWidget)

lemma toggleExceptionWidget_split:
  "toggleExceptionWidget s =
     (case toggleExceptionWidget_sync s of
        (s1, Some focusedSf) \<Rightarrow> toggleExceptionWidget_resume focusedSf s1
      | (s1, None) \<Rightarrow> s1)"
  by (simp add: toggleExceptionWidget_def toggleExceptionWidget_sync_def
      toggleExceptionWidget_resume_def Let_def split: option.splits)

lemma toggleExceptionWidget_sync_shape:
  "fst (toggleExceptionWidget_sync s) = s
   \<or> fst (toggleExceptionWidget_sync s) = closeExceptionWidget s"
  by (simp add: toggleExceptionWidget_sync_def Let_def split: option.splits)

lemma regular_toggleExceptionWidget_sync: "regular s (fst (toggleExceptionWidget_sync s))"
  using toggleExceptionWidget_sync_shape [of s]
  by (auto simp: regular_refl regular_closeExceptionWidget)

lemma regular_toggleExceptionWidget_resume: "regular s (toggleExceptionWidget_resume f s)"
  by (simp add: toggleExceptionWidget_resume_def regular_refl regular_showExceptionWidget
      split: option.splits)

lemma regular_createInlineValueDecorationsInsideRange:
  "regular s (snd (createInlineValueDecorationsInsideRange h es rng model s))"
  by (simp add: createInlineValueDecorationsInsideRange_def Let_def split_beta
      regular_getWordToPositionsMap)

lemma regular_decorationsPerScope:
  "regular s (snd (decorationsPerScope h sf model scopes s))"
proof (induction scopes arbitrary: s)
  case Nil
  then show ?case by (simp add: regular_refl)
next
  case (Cons scp scopes)
  show ?case
    by (simp add: Let_def split_beta)
      (rule regular_trans [OF regular_createInlineValueDecorationsInsideRange Cons.IH])
qed

lemma regular_setField:
  "regular s (s\<lparr> removeInlineValuesScheduler := cancel (removeInlineValuesScheduler s) \<rparr>)"
  "regular s (s\<lparr> wordToLineNumbersMap := None \<rparr>)"
  "regular s (s\<lparr> hostCalls := hostCalls s @ [Editor_setDecorations ds] \<rparr>)"
  "regular s (s\<lparr> hostCalls := hostCalls s @ [RegisterDecorationType] \<rparr>)"
  "regular s (s\<lparr> hostCalls := hostCalls s @ [HoverWidget_hide] \<rparr>)"
  "regular s (s\<lparr> hostCalls := hostCalls s @ [Editor_removeDecorations] \<rparr>)"
  "regular s (s\<lparr> hostCalls := hostCalls s @ [GetHover model p CancellationToken_None] \<rparr>)"
  by (simp_all add: regular_defs)

lemma regular_updateInlineValueDecorations:
  "regular s (snd (updateInlineValueDecorations h sf s))"
proof -
  have step: "regular s (snd (case r of Inl e \<Rightarrow> (Inl e, s2)
        | Inr dss \<Rightarrow> (Inr (), s2\<lparr> hostCalls := hostCalls s2 @ [Editor_setDecorations (concat dss)] \<rparr>)))"
    if "regular s s2" for r :: "error + decoration list list" and s2
    using that regular_trans [OF that regular_setField(3)] by (cases r) simp_all
  show ?thesis
    by (auto simp: updateInlineValueDecorations_def Let_def split_beta
        regular_scheduleRemoveInlineValues
        split: option.splits
        intro!: step regular_trans [OF regular_setField(1) regular_decorationsPerScope])
qed

lemma regular_onFocusStackFrame: "regular s (snd (onFocusStackFrame h sf s))"
proof -
  let ?s1 = "case editor_model s of
                  Some model \<Rightarrow>
                    (let s0 = applyHoverConfiguration model sf s
                     in if (case sf of
                              Some f \<Rightarrow> source_uri (source (frames s f)) = model_uri model
                            | None \<Rightarrow> False)
                        then toggleExceptionWidget s0
                        else hideHoverWidget s0)
                | None \<Rightarrow> s"
  have "regular s ?s1"
    by (auto simp: Let_def regular_refl split: option.splits
        intro: regular_trans [OF regular_applyHoverConfiguration regular_toggleExceptionWidget]
               regular_trans [OF regular_applyHoverConfiguration regular_hideHoverWidget])
  from regular_trans [OF this regular_updateInlineValueDecorations]
  show ?thesis by (simp add: onFocusStackFrame_def Let_def)
qed

lemma regular_onDidChangeModel: "regular s (snd (onDidChangeModel h s))"
proof -
  define s1 where "s1 = (case editor_model s of
                  Some model \<Rightarrow> applyHoverConfiguration model (focusedStackFrame s) s
                | None \<Rightarrow> s)"
  define s2 where "s2 = fst (toggleExceptionWidget_sync s1)"
  define awaiting where "awaiting = snd (toggleExceptionWidget_sync s1)"
  define s3 where "s3 = hideHoverWidget s2"
  define s4 where "s4 = updateConfigurationWidgetVisibility s3"
  define s5 where "s5 = s4\<lparr> wordToLineNumbersMap := None \<rparr>"
  define s6 where "s6 = (case awaiting of
                  Some focusedSf \<Rightarrow> toggleExceptionWidget_resume focusedSf s5
                | None \<Rightarrow> s5)"
  have eq: "snd (onDidChangeModel h s) = snd (updateInlineValueDecorations h (focusedStackFrame s) s6)"
    by (simp add: onDidChangeModel_def Let_def split_beta s1_def s2_def awaiting_def s3_def
        s4_def s5_def s6_def split: option.splits)
  have 1: "regular s s1"
    by (simp add: s1_def regular_refl regular_applyHoverConfiguration split: option.splits)
  have 2: "regular s1 s2" by (simp add: s2_def regular_toggleExceptionWidget_sync)
  have 3: "regular s2 s3" by (simp add: s3_def regular_hideHoverWidget)
  have 4: "regular s3 s4" by (simp add: s4_def regular_updateConfigurationWidgetVisibility)
  have 5: "regular s4 s5" by (simp add: s5_def regular_setField)
  have 6: "regular s5 s6"
    by (simp add: s6_def regular_refl regular_toggleExceptionWidget_resume split: option.splits)
  have 7: "regular s6 (snd (updateInlineValueDecorations h (focusedStackFrame s) s6))"
    by (rule regular_updateInlineValueDecorations)
  from 1 2 3 4 5 6 7 show ?thesis unfolding eq by (blast intro: regular_trans)
qed

lemma regular_onDidChangeState: "regular s (onDidChangeState st s)"
  by (simp add: onDidChangeState_def regular_refl regular_toggleExceptionWidget)

lemma regular_clearTimer: "regular s (clearTimer sch s)"
  by (cases sch) (simp_all add: clearTimer_def regular_defs)

lemma regular_runner: "regular s (runner h sch s)"
  by (cases sch)
    (simp_all add: runner_def regular_refl regular_showHover regular_setField
      regular_updateInlineValueDecorations split: option.splits)

lemma regular_onTimeout: "regular s (onTimeout h sch s)"
  by (simp add: onTimeout_def regular_refl regular_trans [OF regular_clearTimer regular_runner])

lemma regular_construct: "regular s (construct s)"
proof -
  define s0 where "s0 = s\<lparr> nonDebugHoverPosition := None, hoverRange := None, mouseDown := False,
                  wordToLineNumbersMap := None, exceptionWidget := None,
                  configurationWidget := None,
                  showHoverScheduler := None, hideHoverScheduler := None,
                  provideNonDebugHoverScheduler := None,
                  removeInlineValuesScheduler := None,
                  updateInlineValuesScheduler := None \<rparr>"
  define s1 where "s1 = updateConfigurationWidgetVisibility s0"
  define s2 where "s2 = s1\<lparr> hostCalls := hostCalls s1 @ [RegisterDecorationType] \<rparr>"
  have eq: "construct s = toggleExceptionWidget s2"
    by (simp add: construct_def Let_def s0_def s1_def s2_def)
  have 0: "regular s s0" by (simp add: s0_def regular_defs)
  have 1: "regular s0 s1" by (simp add: s1_def regular_updateConfigurationWidgetVisibility)
  have 2: "regular s1 s2" by (simp add: s2_def regular_setField)
  have 3: "regular s2 (toggleExceptionWidget s2)" by (rule regular_toggleExceptionWidget)
  from 0 1 2 3 show ?thesis unfolding eq by (blast intro: regular_trans)
qed

lemma regular_handle: "regular s (handle h e s)"
  by (cases e)
    (simp_all add: handle_def regular_construct regular_onFocusStackFrame
      regular_onEditorMouseDown regular_onMouseUp regular_onEditorMouseMove regular_onMouseLeave
      regular_onKeyDown regular_onDidChangeModelContent regular_onDidChangeModel
      regular_onDidScrollChange regular_onDidChangeState regular_onTimeout regular_showHover
      regular_addLaunchConfiguration regular_dispose)

lemma regular_run: "regular s (run h events s)"
proof (induction events arbitrary: s)
  case Nil
  then show ?case by (simp add: run_def regular_refl)
next
  case (Cons e events)
  from regular_trans [OF regular_handle Cons.IH [of "handle h e s"]]
  show ?case by (simp add: run_def)
qed

lemma callsExtended_tokens:
  "callsExtended s s' \<Longrightarrow>
     hostCalls s' = hostCalls s @ newHostCalls s s'
     \<and> (\<forall>c \<in> set (newHostCalls s s'). \<forall>model p token.
           c = GetHover model p token \<longrightarrow> token = CancellationToken_None)"
  by (force simp: callsExtended_def tokensNone_def)

lemma example_show_pass:
  "hostCalls (onTimeout exampleHost ShowHoverScheduler exampleState)
     = [HoverWidget_showAt \<lparr> startLineNumber = 1, startColumn = 3,
                             endLineNumber = 1, endColumn = 4 \<rparr> False]"
  by (simp add: onTimeout_def pendingTimer_def clearTimer_def isScheduled_def runner_def
      showHover_def exampleState_def exampleFrame_def exampleModel_def)

lemma example_after_hide:
  "hostCalls (hideHoverWidget exampleState) = []"
  by (simp add: hideHoverWidget_def exampleState_def Let_def)

text \<open>
  C5: the contribution cancels by cancelling a pending timer. \<open>hideHoverWidget\<close> cancels
  the timers of the show-hover and the non-debug-hover scheduler, so that a show pass
  scheduled before the hide request does not fire, and the mouse-leave listener cancels
  the non-debug-hover timer. The show pass shows the hover at the hover range, and the
  non-debug hover pass calls \<open>getHover\<close> at the non-debug hover position with
  \<open>CancellationToken.None\<close>. Over every operation of the class, and over every sequence of
  operations: the calls made on the host are only added to, every call of \<open>getHover\<close>
  among them is made with \<open>CancellationToken.None\<close>, and the timer of each scheduler is
  left as it is, or is gone, or is armed with the delay of its scheduler.
\<close>

theorem hideHoverWidget_cancels_timers:
  "showHoverScheduler (hideHoverWidget s) = None
   \<and> provideNonDebugHoverScheduler (hideHoverWidget s) = None
   \<and> onTimeout h ShowHoverScheduler (hideHoverWidget s) = hideHoverWidget s
   \<and> onTimeout h ProvideNonDebugHoverScheduler (hideHoverWidget s) = hideHoverWidget s
   \<and> provideNonDebugHoverScheduler (onMouseLeave mouseEvent s) = None
   \<and> runner h ShowHoverScheduler s =
       (case hoverRange s of Some r \<Rightarrow> showHover r False s | None \<Rightarrow> s)
   \<and> runner h ProvideNonDebugHoverScheduler s =
       (case editor_model s of
          Some model \<Rightarrow>
            (case nonDebugHoverPosition s of
               Some p \<Rightarrow>
                 s\<lparr> hostCalls := hostCalls s @ [GetHover model p CancellationToken_None] \<rparr>
             | None \<Rightarrow> s)
        | None \<Rightarrow> s)
   \<and> hostCalls (handle h e s) = hostCalls s @ newHostCalls s (handle h e s)
   \<and> (\<forall>c \<in> set (newHostCalls s (handle h e s)). \<forall>model p token.
         c = GetHover model p token \<longrightarrow> token = CancellationToken_None)
   \<and> hostCalls (run h events s) = hostCalls s @ newHostCalls s (run h events s)
   \<and> (\<forall>c \<in> set (newHostCalls s (run h events s)). \<forall>model p token.
         c = GetHover model p token \<longrightarrow> token = CancellationToken_None)
   \<and> timerKept sch s (handle h e s)"
proof -
  have a: "showHoverScheduler (hideHoverWidget s) = None"
    by (simp add: hideHoverWidget_def cancel_def Let_def)
  have b: "provideNonDebugHoverScheduler (hideHoverWidget s) = None"
    by (simp add: hideHoverWidget_def cancel_def Let_def)
  from a have c: "onTimeout h ShowHoverScheduler (hideHoverWidget s) = hideHoverWidget s"
    by (simp add: onTimeout_def pendingTimer_def isScheduled_def)
  from b have d: "onTimeout h ProvideNonDebugHoverScheduler (hideHoverWidget s) = hideHoverWidget s"
    by (simp add: onTimeout_def pendingTimer_def isScheduled_def)
  have l: "provideNonDebugHoverScheduler (onMouseLeave mouseEvent s) = None"
    by (simp add: onMouseLeave_def hideHoverWidget_def cancel_def Let_def split: option.splits)
  have r1: "runner h ShowHoverScheduler s =
       (case hoverRange s of Some r \<Rightarrow> showHover r False s | None \<Rightarrow> s)"
    by (simp add: runner_def)
  have r2: "runner h ProvideNonDebugHoverScheduler s =
       (case editor_model s of
          Some model \<Rightarrow>
            (case nonDebugHoverPosition s of
               Some p \<Rightarrow>
                 s\<lparr> hostCalls := hostCalls s @ [GetHover model p CancellationToken_None] \<rparr>
             | None \<Rightarrow> s)
        | None \<Rightarrow> s)"
    by (simp add: runner_def)
  have "regular s (handle h e s)" by (rule regular_handle)
  then have e1: "callsExtended s (handle h e s)" and t: "timerKept sch s (handle h e s)"
    by (simp_all add: regular_def allTimersKept_timerKept)
  have "regular s (run h events s)" by (rule regular_run)
  then have e2: "callsExtended s (run h events s)" by (simp add: regular_def)
  from a b c d l r1 r2 callsExtended_tokens [OF e1] callsExtended_tokens [OF e2] t
  show ?thesis by blast
qed

text \<open>The theorem at the concrete editor: the show pass and the non-debug hover pass
  are pending and would show the hover and call \<open>getHover\<close>; after \<open>hideHoverWidget\<close>
  their time-outs make no call.\<close>

theorem hideHoverWidget_cancels_timers_witness:
  "showHoverScheduler exampleState = Some 300
   \<and> provideNonDebugHoverScheduler exampleState = Some 300
   \<and> hostCalls (onTimeout exampleHost ShowHoverScheduler exampleState)
       = [HoverWidget_showAt \<lparr> startLineNumber = 1, startColumn = 3,
                               endLineNumber = 1, endColumn = 4 \<rparr> False]
   \<and> newHostCalls exampleState
        (handle exampleHost (Timeout ProvideNonDebugHoverScheduler) exampleState)
       = [GetHover exampleModel \<lparr> lineNumber = 1, column = 3 \<rparr> CancellationToken_None]
   \<and> showHoverScheduler (hideHoverWidget exampleState) = None
   \<and> provideNonDebugHoverScheduler (hideHoverWidget exampleState) = None
   \<and> hostCalls (onTimeout exampleHost ShowHoverScheduler (hideHoverWidget exampleState)) = []
   \<and> hostCalls (onTimeout exampleHost ProvideNonDebugHoverScheduler (hideHoverWidget exampleState))
       = []
   \<and> provideNonDebugHoverScheduler (onMouseLeave exampleMouseEvent exampleState) = None"
proof -
  note t = hideHoverWidget_cancels_timers [of exampleState exampleHost exampleMouseEvent
      "Timeout ProvideNonDebugHoverScheduler" "[]" ProvideNonDebugHoverScheduler]
  have p: "showHoverScheduler exampleState = Some 300"
    "provideNonDebugHoverScheduler exampleState = Some 300"
    by (simp_all add: exampleState_def)
  from t have r: "runner exampleHost ProvideNonDebugHoverScheduler
        (clearTimer ProvideNonDebugHoverScheduler exampleState)
      = (clearTimer ProvideNonDebugHoverScheduler exampleState)
          \<lparr> hostCalls := [GetHover exampleModel \<lparr> lineNumber = 1, column = 3 \<rparr>
                            CancellationToken_None] \<rparr>"
    by (simp add: runner_def clearTimer_def exampleState_def)
  then have g: "newHostCalls exampleState
        (handle exampleHost (Timeout ProvideNonDebugHoverScheduler) exampleState)
       = [GetHover exampleModel \<lparr> lineNumber = 1, column = 3 \<rparr> CancellationToken_None]"
    by (simp add: handle_def onTimeout_def pendingTimer_def isScheduled_def newHostCalls_def p)
      (simp add: exampleState_def)
  from t have h1: "showHoverScheduler (hideHoverWidget exampleState) = None"
    and h2: "provideNonDebugHoverScheduler (hideHoverWidget exampleState) = None"
    and h3: "onTimeout exampleHost ShowHoverScheduler (hideHoverWidget exampleState)
        = hideHoverWidget exampleState"
    and h4: "onTimeout exampleHost ProvideNonDebugHoverScheduler (hideHoverWidget exampleState)
        = hideHoverWidget exampleState"
    and h5: "provideNonDebugHoverScheduler (onMouseLeave exampleMouseEvent exampleState) = None"
    by blast+
  from p example_show_pass g h1 h2 h5 show ?thesis
    by (simp add: h3 h4 example_after_hide)
qed

end
